theory Spec2Isabelle
  imports Complex_Main "HOL-Library.Monad_Syntax"
begin

section \<open>NoProb: the saturation model, its objective, the outer search\<close>

text \<open>
  The embedding follows \<^verbatim>\<open>src/NoProb.py\<close> function by function.

  \<^item> A float64 is a \<^typ>\<open>real\<close>: the arithmetic of the model is exact, so the theorems
    speak about the formulas the code evaluates and not about rounding. Beyond rounding
    the two differ at a division by zero (numpy gives an infinity or a NaN, HOL gives 0)
    and at an exponential that overflows or underflows; the theorems about the formulas
    assume the divisors that the claims assume to be nonzero.
  \<^item> The parameter vector is a list read by index; the auxiliary parameters are a
    dictionary from names to numbers. A read that Python answers with IndexError or
    KeyError is \<open>None\<close>.
  \<^item> The one statement that rounding decides, the bounds of the gate, is made about a
    second copy of the model functions over IEEE 754 doubles.
  \<^item> A numpy expression over an array of times computes the scalar expression at every
    element; the scalar functions are the model and \<open>over_array\<close> lifts them.
\<close>

subsection \<open>Data\<close>

type_synonym parameters = "real list"
type_synonym aux_parameters = "string \<rightharpoonup> real"

text \<open>\<^verbatim>\<open>parameters[i]\<close>: IndexError past the end.\<close>

definition item :: "'a list \<Rightarrow> nat \<Rightarrow> 'a option" where
  "item parameters i = (if i < length parameters then Some (parameters ! i) else None)"

text \<open>\<^verbatim>\<open>TUNED_PARAMS\<close>, \<^verbatim>\<open>USER_DEFINED_PARAMS\<close> and \<^verbatim>\<open>MAX_ITER\<close>.\<close>

definition TUNED_PARAMS :: "string list" where
  "TUNED_PARAMS = [''k1'', ''n0'', ''n1'', ''n2'']"

definition USER_DEFINED_PARAMS :: "string set" where
  "USER_DEFINED_PARAMS = set [''dt_min'', ''dt_max'', ''c3'', ''r'', ''graph_left_cutoff'',
     ''graph_right_cutoff'', ''optimization_left_cutoff'', ''optimization_right_cutoff'']"

definition MAX_ITER :: nat where
  "MAX_ITER = 5000"

subsection \<open>The model\<close>

text \<open>\<^verbatim>\<open>get_saturation_gradient\<close>: the four expressions of the source, in its order.\<close>

definition get_saturation_gradient :: "real \<Rightarrow> parameters \<Rightarrow> aux_parameters \<Rightarrow> real list option" where
  "get_saturation_gradient t parameters aux = do {
     K1 \<leftarrow> item parameters 0;
     N0 \<leftarrow> item parameters 1;
     N1 \<leftarrow> item parameters 2;
     N2 \<leftarrow> item parameters 3;
     dt \<leftarrow> aux ''dt'';
     C3 \<leftarrow> aux ''c3'';
     Cvert \<leftarrow> aux ''cvert'';
     r \<leftarrow> aux ''r'';
     let df_dk1 = (- 1 / (C3 * exp (r * (dt - t))))
           * ((((dt - t) * exp ((- K1 * (dt - t)) / N1)) / (K1 * N1))
              - (1 - exp ((- K1 * (dt - t)) / N1)) / K1 ^ 2);
         df_dN0 = - (dt - t) * exp ((K1 * (dt - t)) / N0) / ((N0 ^ 2) * (C3 * exp (r * (dt - t)) + 1));
         df_dN1 = (t - dt) / ((N1 ^ 2) * (C3 * exp (r * (dt - t)) + 1));
         df_dN2 = (dt - t) / (N2 ^ 2)
     in Some [df_dk1, df_dN0, df_dN1, df_dN2]
   }"

definition mod_maxwell :: "real \<Rightarrow> parameters \<Rightarrow> aux_parameters \<Rightarrow> real option" where
  "mod_maxwell time parameters aux = do {
     K1 \<leftarrow> item parameters 0;
     N0 \<leftarrow> item parameters 1;
     N1 \<leftarrow> item parameters 2;
     N2 \<leftarrow> item parameters 3;
     dt \<leftarrow> aux ''dt'';
     C3 \<leftarrow> aux ''c3'';
     Cvert \<leftarrow> aux ''cvert'';
     r \<leftarrow> aux ''r'';
     let T = N0 / K1;
         adjusted_t = time - dt
     in Some (- 1 * ((1 / K1) * (1 - exp (- 1 * adjusted_t / T)) + adjusted_t / N1))
   }"

definition s_curve :: "real \<Rightarrow> parameters \<Rightarrow> aux_parameters \<Rightarrow> real option" where
  "s_curve time parameters aux = do {
     dt \<leftarrow> aux ''dt'';
     C3 \<leftarrow> aux ''c3'';
     Cvert \<leftarrow> aux ''cvert'';
     r \<leftarrow> aux ''r'';
     Some (1 / (1 + C3 * exp ((- time + dt) * r)))
   }"

definition steady :: "real \<Rightarrow> parameters \<Rightarrow> aux_parameters \<Rightarrow> real option" where
  "steady time parameters aux = do {
     N2 \<leftarrow> item parameters 3;
     dt \<leftarrow> aux ''dt'';
     C3 \<leftarrow> aux ''c3'';
     Cvert \<leftarrow> aux ''cvert'';
     r \<leftarrow> aux ''r'';
     Some ((time - dt) / N2 + Cvert)
   }"

definition saturation_function :: "real \<Rightarrow> parameters \<Rightarrow> aux_parameters \<Rightarrow> real option" where
  "saturation_function time parameters aux = do {
     m \<leftarrow> mod_maxwell time parameters aux;
     s \<leftarrow> s_curve time parameters aux;
     d \<leftarrow> steady time parameters aux;
     Some (m * s + d)
   }"

text \<open>
  The formula of the specification, in its words: relaxation, gate and drift of a time
  \<open>t\<close>, and their combination.
\<close>

definition relaxation :: "real \<Rightarrow> real \<Rightarrow> real \<Rightarrow> real \<Rightarrow> real \<Rightarrow> real" where
  "relaxation K1 N0 N1 dt t = - ((1 / K1) * (1 - exp (- (t - dt) / (N0 / K1))) + (t - dt) / N1)"

definition gate :: "real \<Rightarrow> real \<Rightarrow> real \<Rightarrow> real \<Rightarrow> real" where
  "gate c3 r dt t = 1 / (1 + c3 * exp (- r * (t - dt)))"

definition drift :: "real \<Rightarrow> real \<Rightarrow> real \<Rightarrow> real \<Rightarrow> real" where
  "drift N2 cvert dt t = (t - dt) / N2 + cvert"

text \<open>The auxiliary assignment \<open>(dt, c3, cvert, r)\<close> as a dictionary.\<close>

definition aux_of :: "real \<Rightarrow> real \<Rightarrow> real \<Rightarrow> real \<Rightarrow> aux_parameters" where
  "aux_of dt c3 cvert r = [''dt'' \<mapsto> dt, ''c3'' \<mapsto> c3, ''cvert'' \<mapsto> cvert, ''r'' \<mapsto> r]"

subsection \<open>Objective and gradient of the fit\<close>

text \<open>
  A call with an array of times: the lookups of the body run once, whatever the array
  holds (also when it is empty), then the expression is computed at every element.
\<close>

definition over_array :: "(real \<Rightarrow> 'a option) \<Rightarrow> real list \<Rightarrow> 'a list option" where
  "over_array f X = do { _ \<leftarrow> f 0; those (map f X) }"

text \<open>
  An elementwise numpy operation on two one-dimensional arrays: equal lengths pair up, an
  array of one element is broadcast, anything else raises.
\<close>

definition np_binop :: "(real \<Rightarrow> real \<Rightarrow> real) \<Rightarrow> real list \<Rightarrow> real list \<Rightarrow> real list option" where
  "np_binop f xs ys =
     (if length xs = length ys then Some (map2 f xs ys)
      else if length xs = 1 then Some (map (f (hd xs)) ys)
      else if length ys = 1 then Some (map (\<lambda>x. f x (hd ys)) xs)
      else None)"

definition get_loss :: "real list \<Rightarrow> real list \<Rightarrow> parameters \<Rightarrow> aux_parameters \<Rightarrow> real option" where
  "get_loss X Y parameters aux = do {
     F \<leftarrow> over_array (\<lambda>t. saturation_function t parameters aux) X;
     R \<leftarrow> np_binop (-) Y F;
     Some (sum_list (map (\<lambda>r. r ^ 2) R))
   }"

definition get_obj_function :: "real list \<Rightarrow> real list \<Rightarrow> aux_parameters \<Rightarrow> parameters \<Rightarrow> real option" where
  "get_obj_function X Y aux = (\<lambda>parameters. do {
     F \<leftarrow> over_array (\<lambda>t. saturation_function t parameters aux) X;
     R \<leftarrow> np_binop (-) Y F;
     Some (sum_list (map (\<lambda>r. r ^ 2) R))
   })"

text \<open>
  \<^verbatim>\<open>get_gradient\<close>: \<open>grad\<close> is the array of the four rows of
  \<^verbatim>\<open>get_saturation_gradient\<close> over \<open>X\<close>; the loop runs over
  \<^verbatim>\<open>range(len(parameters))\<close> and reads row \<open>i\<close>, which is an IndexError from
  the fifth parameter on.
\<close>

definition get_gradient :: "real list \<Rightarrow> real list \<Rightarrow> parameters \<Rightarrow> aux_parameters \<Rightarrow> real list option" where
  "get_gradient X Y parameters aux = do {
     G \<leftarrow> over_array (\<lambda>t. get_saturation_gradient t parameters aux) X;
     let grad = map (\<lambda>i. map (\<lambda>g. g ! i) G) [0..<4]
     in those (map (\<lambda>i. do {
          grad_i \<leftarrow> (if i < length grad then Some (grad ! i) else None);
          F \<leftarrow> over_array (\<lambda>t. saturation_function t parameters aux) X;
          a \<leftarrow> np_binop (*) (map (\<lambda>y. - 2 * y) Y) grad_i;
          b \<leftarrow> np_binop (*) (map (\<lambda>f. 2 * f) F) grad_i;
          s \<leftarrow> np_binop (+) a b;
          Some (sum_list s)
        }) [0..<length parameters])
   }"

definition get_gradient_function :: "real list \<Rightarrow> real list \<Rightarrow> aux_parameters \<Rightarrow> parameters \<Rightarrow> real list option" where
  "get_gradient_function X Y aux = (\<lambda>parameters. get_gradient X Y parameters aux)"

subsection \<open>Errors\<close>

text \<open>
  What stops a run: \<open>LookupError\<close> is Python's IndexError or KeyError (the \<open>None\<close> of
  the functions above), \<open>NameError\<close> the read of a variable no iteration has bound,
  \<open>SystemExit n\<close> a call of \<^verbatim>\<open>sys.exit(n)\<close>, \<open>ValueError\<close> a text that is not a
  number, \<open>EOFError\<close> the end of the operator's input.
\<close>

datatype error = LookupError | NameError | SystemExit nat | ValueError | EOFError

definition raising :: "'a option \<Rightarrow> error + 'a" where
  "raising x = (case x of None \<Rightarrow> Inl LookupError | Some v \<Rightarrow> Inr v)"

subsection \<open>The asymptote finder\<close>

text \<open>
  \<^verbatim>\<open>getAsymtote_Y\<close>: the loop over \<^verbatim>\<open>range(1, 100)\<close> returns at the first index that
  passes the test and falls through to \<^verbatim>\<open>sys.exit(1)\<close>.
\<close>

fun asymtote_loop :: "parameters \<Rightarrow> aux_parameters \<Rightarrow> real \<Rightarrow> real \<Rightarrow> nat list \<Rightarrow> error + real" where
  "asymtote_loop parameters aux dt ddB_dt [] = Inl (SystemExit 1)"
| "asymtote_loop parameters aux dt ddB_dt (i # rest) =
     (case (saturation_function (dt * real i) parameters aux,
            saturation_function (dt * real i - 1) parameters aux,
            saturation_function (dt * real i + 1) parameters aux) of
        (Some f_at, Some f_before, Some f_after) \<Rightarrow>
          (let dB_asym_guess_1 = f_at - f_before;
               dB_asym_guess_2 = f_after - f_at;
               ddB_asym_guess = dB_asym_guess_1 - dB_asym_guess_2
           in if ddB_dt * 0.01 > \<bar>ddB_asym_guess\<bar>
              then (if dB_asym_guess_2 < 0 then Inr f_at
                    else Inr (f_at - dt * real i * dB_asym_guess_2))
              else asymtote_loop parameters aux dt ddB_dt rest)
      | _ \<Rightarrow> Inl LookupError)"

definition getAsymtote_Y :: "parameters \<Rightarrow> aux_parameters \<Rightarrow> error + real" where
  "getAsymtote_Y parameters aux =
     (case aux ''dt'' of
        None \<Rightarrow> Inl LookupError
      | Some dt \<Rightarrow>
          (case (saturation_function dt parameters aux,
                 saturation_function (dt - 1) parameters aux,
                 saturation_function (dt + 1) parameters aux) of
             (Some f_at, Some f_before, Some f_after) \<Rightarrow>
               asymtote_loop parameters aux dt \<bar>(f_at - f_before) - (f_after - f_at)\<bar> [1..<100]
           | _ \<Rightarrow> Inl LookupError))"

subsection \<open>The outer search\<close>

text \<open>
  The loss that comes back from a fit is a float64, and the search looks at it only
  through \<^verbatim>\<open>loss == 0\<close> and \<^verbatim>\<open>guess_loss < loss\<close>. Both are modelled on the values
  a float64 has: a number, an infinity of either sign, or NaN, with the comparisons of
  IEEE 754 (every comparison with NaN is false).
\<close>

datatype float64 = Num real | PosInf | NegInf | NaN

fun fl_less :: "float64 \<Rightarrow> float64 \<Rightarrow> bool" where
  "fl_less NaN y = False"
| "fl_less x NaN = False"
| "fl_less (Num a) (Num b) = (a < b)"
| "fl_less (Num a) PosInf = True"
| "fl_less (Num a) NegInf = False"
| "fl_less PosInf y = False"
| "fl_less NegInf NegInf = False"
| "fl_less NegInf y = True"

definition fl_is_zero :: "float64 \<Rightarrow> bool" where
  "fl_is_zero x = (x = Num 0)"

definition max_itterations :: nat where
  "max_itterations = 200"

text \<open>
  Lines 285 to 298: the candidate arrays. Python 2 divides the two integers of
  \<^verbatim>\<open>int(max_index/max_itterations)\<close> with rounding down. There is no branch for a
  window of at most \<open>max_itterations\<close> samples: the arrays stay empty.
\<close>

definition guess_arrays :: "real list \<Rightarrow> real list \<Rightarrow> (real list \<times> real list) option" where
  "guess_arrays span_dt span_cvert =
     (let span_length = length span_dt
      in if span_length > max_itterations
         then (let max_index = span_length - 1;
                   index_interval = max_index div max_itterations
               in do {
                    guess_dt \<leftarrow> those (map (\<lambda>i. item span_dt (i * index_interval)) [0..<max_itterations]);
                    guess_cvert \<leftarrow> those (map (\<lambda>i. item span_cvert (i * index_interval)) [0..<max_itterations]);
                    Some (guess_dt, guess_cvert)
                  })
         else Some ([], []))"

text \<open>
  The variables of the search loop. \<open>new_params\<close> is \<open>None\<close> until an iteration binds
  it; \<open>loss_array\<close> holds the rows that follow the header row.
\<close>

record search_state =
  aux_params :: aux_parameters
  new_params :: "parameters option"
  loss :: float64
  best_guess_index :: nat
  loss_array :: "(real \<times> float64) list"

definition initial_state :: "aux_parameters \<Rightarrow> search_state" where
  "initial_state aux = \<lparr>aux_params = aux, new_params = None, loss = Num 0,
     best_guess_index = 0, loss_array = []\<rparr>"

text \<open>
  One iteration (lines 309 to 320). \<open>fit\<close> is the call
  \<^verbatim>\<open>scipy_optimize(optimization_X, optimization_Y, aux_params, parameter_guess)\<close>, whose
  data and first guess do not change during the search: it reads the dictionary and
  returns the fitted parameters and their loss. Its two minimisers are scipy's.
\<close>

definition search_step :: "(aux_parameters \<Rightarrow> parameters \<times> float64) \<Rightarrow> real list \<Rightarrow> real list
    \<Rightarrow> nat \<Rightarrow> search_state \<Rightarrow> search_state" where
  "search_step fit guess_dt guess_cvert index st =
     (let aux = (aux_params st)(''dt'' \<mapsto> guess_dt ! index, ''cvert'' \<mapsto> guess_cvert ! index);
          (guess_params, guess_loss) = fit aux;
          st1 = st\<lparr>aux_params := aux, loss_array := loss_array st @ [(guess_dt ! index, guess_loss)]\<rparr>
      in if fl_is_zero (loss st) \<or> fl_less guess_loss (loss st)
         then st1\<lparr>new_params := Some guess_params, loss := guess_loss, best_guess_index := index\<rparr>
         else st1)"

text \<open>The state after the first \<open>k\<close> iterations, and after the whole loop.\<close>

definition search_upto :: "(aux_parameters \<Rightarrow> parameters \<times> float64) \<Rightarrow> real list \<Rightarrow> real list
    \<Rightarrow> nat \<Rightarrow> search_state \<Rightarrow> search_state" where
  "search_upto fit guess_dt guess_cvert k st = fold (search_step fit guess_dt guess_cvert) [0..<k] st"

definition search_loop :: "(aux_parameters \<Rightarrow> parameters \<times> float64) \<Rightarrow> real list \<Rightarrow> real list
    \<Rightarrow> search_state \<Rightarrow> search_state" where
  "search_loop fit guess_dt guess_cvert st = search_upto fit guess_dt guess_cvert (length guess_dt) st"

text \<open>
  The loss of candidate \<open>i\<close>: what \<open>fit\<close> returns for the dictionary of iteration \<open>i\<close>.
\<close>

definition candidate_loss :: "(aux_parameters \<Rightarrow> parameters \<times> float64) \<Rightarrow> aux_parameters
    \<Rightarrow> real list \<Rightarrow> real list \<Rightarrow> nat \<Rightarrow> float64" where
  "candidate_loss fit aux guess_dt guess_cvert i =
     snd (fit (aux(''dt'' \<mapsto> guess_dt ! i, ''cvert'' \<mapsto> guess_cvert ! i)))"

text \<open>
  The search as the main program runs it, from the candidate window to the dictionary
  with \<open>bt\<close> (lines 285 to 335). Writing the trace to its file is left out.
\<close>

definition main_search :: "(aux_parameters \<Rightarrow> parameters \<times> float64) \<Rightarrow> real list \<Rightarrow> real list
    \<Rightarrow> aux_parameters \<Rightarrow> error + search_state" where
  "main_search fit span_dt span_cvert aux0 =
     (case guess_arrays span_dt span_cvert of
        None \<Rightarrow> Inl LookupError
      | Some (guess_dt, guess_cvert) \<Rightarrow>
          (let st = search_loop fit guess_dt guess_cvert (initial_state aux0)
           in if \<not> best_guess_index st < length guess_dt then Inl LookupError
              else (let aux1 = (aux_params st)(''dt'' \<mapsto> guess_dt ! best_guess_index st,
                                               ''cvert'' \<mapsto> guess_cvert ! best_guess_index st)
                    in case new_params st of
                         None \<Rightarrow> Inl NameError
                       | Some fitted \<Rightarrow>
                           (case getAsymtote_Y fitted aux1 of
                              Inl e \<Rightarrow> Inl e
                            | Inr asymptote_Y \<Rightarrow>
                                (case raising (aux1 ''optimization_left_cutoff'') of
                                   Inl e \<Rightarrow> Inl e
                                 | Inr cutoff \<Rightarrow>
                                     (case raising (saturation_function cutoff fitted aux1) of
                                        Inl e \<Rightarrow> Inl e
                                      | Inr v \<Rightarrow> Inr (st\<lparr>aux_params := aux1(''bt'' \<mapsto> asymptote_Y - v)\<rparr>)))))))"

subsection \<open>The asymptote finder in the words of the specification\<close>

text \<open>
  The model value at a time, the difference of the first differences before and after a
  time, the forward slope, the test \<open>0.01 * ref > |deltadelta|\<close> at index \<open>i\<close> and the
  value returned at an accepted index.
\<close>

definition model_at :: "parameters \<Rightarrow> aux_parameters \<Rightarrow> real \<Rightarrow> real" where
  "model_at parameters aux t = the (saturation_function t parameters aux)"

definition deltadelta :: "parameters \<Rightarrow> aux_parameters \<Rightarrow> real \<Rightarrow> real" where
  "deltadelta parameters aux t =
     (model_at parameters aux t - model_at parameters aux (t - 1))
     - (model_at parameters aux (t + 1) - model_at parameters aux t)"

definition forward_slope :: "parameters \<Rightarrow> aux_parameters \<Rightarrow> real \<Rightarrow> real" where
  "forward_slope parameters aux t = model_at parameters aux (t + 1) - model_at parameters aux t"

definition asymptote_test :: "parameters \<Rightarrow> aux_parameters \<Rightarrow> real \<Rightarrow> nat \<Rightarrow> bool" where
  "asymptote_test parameters aux dt i =
     (0.01 * \<bar>deltadelta parameters aux dt\<bar> > \<bar>deltadelta parameters aux (dt * real i)\<bar>)"

definition asymptote_value :: "parameters \<Rightarrow> aux_parameters \<Rightarrow> real \<Rightarrow> nat \<Rightarrow> real" where
  "asymptote_value parameters aux dt i =
     (if forward_slope parameters aux (dt * real i) < 0 then model_at parameters aux (dt * real i)
      else model_at parameters aux (dt * real i) - dt * real i * forward_slope parameters aux (dt * real i))"

subsection \<open>Reading the parameter file\<close>

text \<open>
  The methods of Python 2 byte strings that the reader uses: \<^verbatim>\<open>strip()\<close> removes
  the six ASCII whitespace characters at both ends, \<^verbatim>\<open>lower()\<close> maps A to Z to a to z
  (the C locale), \<^verbatim>\<open>split("=")\<close> cuts at every separator and always returns at least
  one piece, \<^verbatim>\<open>index\<close> raises ValueError (here \<open>None\<close>) for an absent element.
\<close>

definition is_space :: "char \<Rightarrow> bool" where
  "is_space c = (c \<in> set [CHR '' '', CHR 0x09, CHR 0x0A, CHR 0x0B, CHR 0x0C, CHR 0x0D])"

definition strip :: "string \<Rightarrow> string" where
  "strip s = rev (dropWhile is_space (rev (dropWhile is_space s)))"

definition lower_char :: "char \<Rightarrow> char" where
  "lower_char c = (let n = of_char c :: nat in if 65 \<le> n \<and> n \<le> 90 then char_of (n + 32) else c)"

definition lower :: "string \<Rightarrow> string" where
  "lower s = map lower_char s"

fun split :: "char \<Rightarrow> string \<Rightarrow> string list" where
  "split sep [] = [[]]"
| "split sep (c # cs) =
     (if c = sep then [] # split sep cs
      else (case split sep cs of [] \<Rightarrow> [[c]] | w # ws \<Rightarrow> (c # w) # ws))"

definition startswith :: "string \<Rightarrow> string \<Rightarrow> bool" where
  "startswith s pre = (take (length pre) s = pre)"

fun index_of :: "string list \<Rightarrow> string \<Rightarrow> nat option" where
  "index_of [] x = None"
| "index_of (y # ys) x = (if y = x then Some 0 else map_option Suc (index_of ys x))"



text \<open>
  The confirmation prompt: \<^verbatim>\<open>raw_input\<close> is asked until the answer is y or n. The
  answers the operator types are a list; reading past its end is EOFError.
\<close>

fun ask :: "string list \<Rightarrow> error + string" where
  "ask [] = Inl EOFError"
| "ask (user_in # rest) = (if user_in \<in> set [''y'', ''n''] then Inr user_in else ask rest)"

text \<open>
  The loop over the lines of the file, with the array of tunable parameters and the
  dictionary \<open>d\<close> as state. \<open>float64\<close> is numpy's conversion of a text to a number,
  a parameter of the model: \<open>None\<close> is its ValueError.
\<close>

fun read_lines :: "(string \<Rightarrow> real option) \<Rightarrow> string list \<Rightarrow> parameters \<times> aux_parameters
    \<Rightarrow> error + parameters \<times> aux_parameters" where
  "read_lines float64 [] (parameters, d) = Inr (parameters, d)"
| "read_lines float64 (line # rest) (parameters, d) =
     (if startswith line ''#'' \<or> length (strip line) = 0 then read_lines float64 rest (parameters, d)
      else (case map strip (split CHR ''='' line) of
              [] \<Rightarrow> Inl LookupError
            | row0 # row_rest \<Rightarrow>
                if strip (lower row0) \<in> set TUNED_PARAMS
                then (case index_of TUNED_PARAMS (lower (strip row0)) of
                        None \<Rightarrow> Inl ValueError
                      | Some i \<Rightarrow>
                          (case row_rest of
                             [] \<Rightarrow> Inl LookupError
                           | row1 # _ \<Rightarrow>
                               (case float64 (strip row1) of
                                  None \<Rightarrow> Inl ValueError
                                | Some v \<Rightarrow> read_lines float64 rest (parameters[i := v], d))))
                else if strip (lower row0) \<in> USER_DEFINED_PARAMS
                then (case row_rest of
                        [] \<Rightarrow> Inl LookupError
                      | row1 # _ \<Rightarrow>
                          (case float64 (strip row1) of
                             None \<Rightarrow> Inl ValueError
                           | Some v \<Rightarrow> read_lines float64 rest (parameters, d(strip (lower row0) \<mapsto> v))))
                else Inl (SystemExit 1)))"

definition read_parameters_from_file :: "(string \<Rightarrow> real option) \<Rightarrow> string list \<Rightarrow> string list
    \<Rightarrow> error + parameters \<times> aux_parameters" where
  "read_parameters_from_file float64 lines answers =
     (case read_lines float64 lines (replicate (length TUNED_PARAMS) 0, Map.empty) of
        Inl e \<Rightarrow> Inl e
      | Inr (parameters, d) \<Rightarrow>
          (let missing_keys = Set.filter (\<lambda>k. d k = None) USER_DEFINED_PARAMS
           in if missing_keys \<noteq> {} then Inl (SystemExit 1)
              else (case ask answers of
                      Inl e \<Rightarrow> Inl e
                    | Inr user_in \<Rightarrow>
                        if user_in = ''y'' then Inr (parameters, d) else Inl (SystemExit 1))))"

text \<open>
  For the statements about a file: its lines that are neither comments nor blank, the key
  of such a line, the keys present in the file, and whether a line carries a value that
  \<open>float64\<close> accepts.
\<close>

definition data_lines :: "string list \<Rightarrow> string list" where
  "data_lines lines = filter (\<lambda>line. \<not> (startswith line ''#'' \<or> length (strip line) = 0)) lines"

definition line_key :: "string \<Rightarrow> string" where
  "line_key line = (case map strip (split CHR ''='' line) of [] \<Rightarrow> [] | row0 # _ \<Rightarrow> strip (lower row0))"

definition file_keys :: "string list \<Rightarrow> string set" where
  "file_keys lines = set (map line_key (data_lines lines))"

definition line_value_ok :: "(string \<Rightarrow> real option) \<Rightarrow> string \<Rightarrow> bool" where
  "line_value_ok float64 line =
     (case map strip (split CHR ''='' line) of
        row0 # row1 # _ \<Rightarrow> float64 (strip row1) \<noteq> None
      | _ \<Rightarrow> False)"

text \<open>A complete parameter file, and a conversion that knows the text 3.\<close>

definition example_file :: "string list" where
  "example_file = map (\<lambda>s. s @ [CHR 0x0A])
     [''# parameters'', ''k1 = 3'', ''DT_min=3'', ''dt_max=3'', ''c3=3'', ''r=3'', ''graph_left_cutoff=3'',
      ''graph_right_cutoff=3'', ''optimization_left_cutoff=3'', ''optimization_right_cutoff=3'']"

definition example_float64 :: "string \<Rightarrow> real option" where
  "example_float64 s = (if s = ''3'' then Some 3 else None)"

subsection \<open>The model in float64 arithmetic\<close>

text \<open>
  Whether the gate stays strictly inside its bounds is a question about float64 values,
  so the model functions are given a second time over IEEE 754 binary64 numbers. A
  \<open>double\<close> is a sign and a magnitude (\<open>Finite True 0\<close> is the negative zero, the
  magnitude is never negative), an infinity with its sign, or NaN. An operation computes the
  exact result and rounds it to the nearest double, ties to even: 53 significant bits,
  the exponent of the last place not below \<open>-1074\<close> (the subnormal numbers), and an
  infinity when the rounded magnitude reaches \<open>2 ^ 1024\<close>. numpy reports overflow,
  division by zero and invalid operations as warnings and returns the IEEE result.
\<close>

datatype double = Finite bool real | Infinite bool | NotANumber

definition round_half_even :: "real \<Rightarrow> int" where
  "round_half_even y =
     (let f = \<lfloor>y\<rfloor>; d = y - of_int f
      in if d < 1 / 2 then f else if d > 1 / 2 then f + 1 else if even f then f else f + 1)"

definition ulp_exponent :: "real \<Rightarrow> int" where
  "ulp_exponent m = max \<lfloor>log 2 m\<rfloor> (- 1022) - 52"

definition round_magnitude :: "real \<Rightarrow> real" where
  "round_magnitude m =
     (if m = 0 then 0
      else of_int (round_half_even (m / 2 powr of_int (ulp_exponent m))) * 2 powr of_int (ulp_exponent m))"

definition rounded :: "bool \<Rightarrow> real \<Rightarrow> double" where
  "rounded s m = (let r = round_magnitude m in if r \<ge> 2 ^ 1024 then Infinite s else Finite s r)"

text \<open>
  Negation, addition, subtraction, multiplication and division of IEEE 754, with their
  special cases (a zero sum is positive unless both terms are negative zeros), and the
  exponential, taken as correctly rounded.
\<close>

definition signed_value :: "bool \<Rightarrow> real \<Rightarrow> real" where
  "signed_value s m = (if s then - m else m)"

fun fl_neg :: "double \<Rightarrow> double" where
  "fl_neg (Finite s m) = Finite (\<not> s) m"
| "fl_neg (Infinite s) = Infinite (\<not> s)"
| "fl_neg NotANumber = NotANumber"

fun fl_add :: "double \<Rightarrow> double \<Rightarrow> double" where
  "fl_add NotANumber y = NotANumber"
| "fl_add x NotANumber = NotANumber"
| "fl_add (Infinite s) (Infinite t) = (if s = t then Infinite s else NotANumber)"
| "fl_add (Infinite s) (Finite t n) = Infinite s"
| "fl_add (Finite s m) (Infinite t) = Infinite t"
| "fl_add (Finite s m) (Finite t n) =
     (let v = signed_value s m + signed_value t n
      in if v = 0 then Finite (s \<and> t) 0 else rounded (v < 0) \<bar>v\<bar>)"

definition fl_sub :: "double \<Rightarrow> double \<Rightarrow> double" where
  "fl_sub x y = fl_add x (fl_neg y)"

fun fl_mul :: "double \<Rightarrow> double \<Rightarrow> double" where
  "fl_mul NotANumber y = NotANumber"
| "fl_mul x NotANumber = NotANumber"
| "fl_mul (Infinite s) (Infinite t) = Infinite (s \<noteq> t)"
| "fl_mul (Infinite s) (Finite t n) = (if n = 0 then NotANumber else Infinite (s \<noteq> t))"
| "fl_mul (Finite s m) (Infinite t) = (if m = 0 then NotANumber else Infinite (s \<noteq> t))"
| "fl_mul (Finite s m) (Finite t n) = rounded (s \<noteq> t) (m * n)"

fun fl_div :: "double \<Rightarrow> double \<Rightarrow> double" where
  "fl_div NotANumber y = NotANumber"
| "fl_div x NotANumber = NotANumber"
| "fl_div (Infinite s) (Infinite t) = NotANumber"
| "fl_div (Infinite s) (Finite t n) = Infinite (s \<noteq> t)"
| "fl_div (Finite s m) (Infinite t) = Finite (s \<noteq> t) 0"
| "fl_div (Finite s m) (Finite t n) =
     (if n = 0 then (if m = 0 then NotANumber else Infinite (s \<noteq> t))
      else rounded (s \<noteq> t) (m / n))"

fun fl_exp :: "double \<Rightarrow> double" where
  "fl_exp NotANumber = NotANumber"
| "fl_exp (Infinite s) = (if s then Finite False 0 else Infinite False)"
| "fl_exp (Finite s m) = rounded False (exp (signed_value s m))"

text \<open>The four functions of the model, operation by operation as in the source.\<close>

definition s_curve_float64 :: "double \<Rightarrow> double list \<Rightarrow> (string \<rightharpoonup> double) \<Rightarrow> double option" where
  "s_curve_float64 time parameters aux = do {
     dt \<leftarrow> aux ''dt'';
     C3 \<leftarrow> aux ''c3'';
     Cvert \<leftarrow> aux ''cvert'';
     r \<leftarrow> aux ''r'';
     Some (fl_div (Finite False 1) (fl_add (Finite False 1) (fl_mul C3 (fl_exp (fl_mul (fl_add (fl_neg time) dt) r)))))
   }"

definition mod_maxwell_float64 :: "double \<Rightarrow> double list \<Rightarrow> (string \<rightharpoonup> double) \<Rightarrow> double option" where
  "mod_maxwell_float64 time parameters aux = do {
     K1 \<leftarrow> item parameters 0;
     N0 \<leftarrow> item parameters 1;
     N1 \<leftarrow> item parameters 2;
     N2 \<leftarrow> item parameters 3;
     dt \<leftarrow> aux ''dt'';
     C3 \<leftarrow> aux ''c3'';
     Cvert \<leftarrow> aux ''cvert'';
     r \<leftarrow> aux ''r'';
     let T = fl_div N0 K1;
         adjusted_t = fl_sub time dt
     in Some (fl_mul (Finite True 1)
          (fl_add (fl_mul (fl_div (Finite False 1) K1)
                     (fl_sub (Finite False 1) (fl_exp (fl_div (fl_mul (Finite True 1) adjusted_t) T))))
                  (fl_div adjusted_t N1)))
   }"

definition steady_float64 :: "double \<Rightarrow> double list \<Rightarrow> (string \<rightharpoonup> double) \<Rightarrow> double option" where
  "steady_float64 time parameters aux = do {
     N2 \<leftarrow> item parameters 3;
     dt \<leftarrow> aux ''dt'';
     C3 \<leftarrow> aux ''c3'';
     Cvert \<leftarrow> aux ''cvert'';
     r \<leftarrow> aux ''r'';
     Some (fl_add (fl_div (fl_sub time dt) N2) Cvert)
   }"

definition saturation_function_float64 :: "double \<Rightarrow> double list \<Rightarrow> (string \<rightharpoonup> double) \<Rightarrow> double option" where
  "saturation_function_float64 time parameters aux = do {
     m \<leftarrow> mod_maxwell_float64 time parameters aux;
     s \<leftarrow> s_curve_float64 time parameters aux;
     d \<leftarrow> steady_float64 time parameters aux;
     Some (fl_add (fl_mul m s) d)
   }"

section \<open>Theorems\<close>

lemma item_simps [simp]:
  "item (a # xs) 0 = Some a"
  "item (a # b # xs) 1 = Some b"
  "item (a # b # xs) (Suc 0) = Some b"
  "item (a # b # c # xs) 2 = Some c"
  "item (a # b # c # d # xs) 3 = Some d"
  by (simp_all add: item_def)

lemma aux_of_simps [simp]:
  "aux_of dt c3 cvert r ''dt'' = Some dt"
  "aux_of dt c3 cvert r ''c3'' = Some c3"
  "aux_of dt c3 cvert r ''cvert'' = Some cvert"
  "aux_of dt c3 cvert r ''r'' = Some r"
  by (simp_all add: aux_of_def)

lemma mod_maxwell_closed:
  assumes "aux ''dt'' = Some dt" and "aux ''c3'' = Some c3"
    and "aux ''cvert'' = Some cvert" and "aux ''r'' = Some r"
  shows "mod_maxwell t [K1, N0, N1, N2] aux = Some (relaxation K1 N0 N1 dt t)"
proof -
  have "- ((t - dt) * K1 / N0) = (dt - t) * K1 / N0"
    by (simp add: algebra_simps diff_divide_distrib)
  then show ?thesis
    using assms by (simp add: mod_maxwell_def relaxation_def Let_def)
qed

lemma s_curve_closed:
  assumes "aux ''dt'' = Some dt" and "aux ''c3'' = Some c3"
    and "aux ''cvert'' = Some cvert" and "aux ''r'' = Some r"
  shows "s_curve t parameters aux = Some (gate c3 r dt t)"
proof -
  have e: "exp ((- t + dt) * r) = exp (- r * (t - dt))"
    by (simp add: algebra_simps)
  have "s_curve t parameters aux = Some (1 / (1 + c3 * exp ((- t + dt) * r)))"
    using assms by (simp add: s_curve_def)
  then show ?thesis
    unfolding gate_def e .
qed

lemma steady_closed:
  assumes "aux ''dt'' = Some dt" and "aux ''c3'' = Some c3"
    and "aux ''cvert'' = Some cvert" and "aux ''r'' = Some r"
  shows "steady t [K1, N0, N1, N2] aux = Some (drift N2 cvert dt t)"
  using assms by (simp add: steady_def drift_def)

lemma saturation_function_closed:
  assumes "aux ''dt'' = Some dt" and "aux ''c3'' = Some c3"
    and "aux ''cvert'' = Some cvert" and "aux ''r'' = Some r"
  shows "saturation_function t [K1, N0, N1, N2] aux
         = Some (relaxation K1 N0 N1 dt t * gate c3 r dt t + drift N2 cvert dt t)"
  unfolding saturation_function_def
    mod_maxwell_closed [OF assms] s_curve_closed [OF assms] steady_closed [OF assms]
  by simp

lemma gradient_closed:
  assumes "aux ''dt'' = Some dt" and "aux ''c3'' = Some c3"
    and "aux ''cvert'' = Some cvert" and "aux ''r'' = Some r"
  shows "get_saturation_gradient t [K1, N0, N1, N2] aux
   = Some [(- 1 / (c3 * exp (r * (dt - t))))
           * ((((dt - t) * exp ((- K1 * (dt - t)) / N1)) / (K1 * N1))
              - (1 - exp ((- K1 * (dt - t)) / N1)) / K1 ^ 2),
        - (dt - t) * exp ((K1 * (dt - t)) / N0) / ((N0 ^ 2) * (c3 * exp (r * (dt - t)) + 1)),
        (t - dt) / ((N1 ^ 2) * (c3 * exp (r * (dt - t)) + 1)),
        (dt - t) / (N2 ^ 2)]"
  using assms by (simp add: get_saturation_gradient_def Let_def)

lemma gate_alt: "1 / (c3 * exp (r * (dt - t)) + 1) = gate c3 r dt t"
proof -
  have "r * (dt - t) = - r * (t - dt)" by (simp add: algebra_simps)
  then show ?thesis by (simp add: gate_def add.commute)
qed

lemma relaxation_deriv_N1:
  "N1 \<noteq> 0 \<Longrightarrow> ((\<lambda>n. relaxation K1 N0 n dt t * g + d) has_real_derivative (t - dt) / N1 ^ 2 * g) (at N1)"
  unfolding relaxation_def
  by (auto intro!: derivative_eq_intros simp: power2_eq_square field_simps)

lemma relaxation_deriv_N0:
  "N0 \<noteq> 0 \<Longrightarrow> K1 \<noteq> 0 \<Longrightarrow> ((\<lambda>n. relaxation K1 n N1 dt t * g + d) has_real_derivative
      (t - dt) * exp (K1 * (dt - t) / N0) / N0 ^ 2 * g) (at N0)"
  unfolding relaxation_def
  apply (auto intro!: derivative_eq_intros simp: power2_eq_square)
  apply (simp add: field_simps)
  done

lemma relaxation_deriv_K1:
  "N0 \<noteq> 0 \<Longrightarrow> K1 \<noteq> 0 \<Longrightarrow> ((\<lambda>k. relaxation k N0 N1 dt t * g + d) has_real_derivative
      ((1 - exp (K1 * (dt - t) / N0)) / K1 ^ 2 - (t - dt) * exp (K1 * (dt - t) / N0) / (K1 * N0)) * g) (at K1)"
  unfolding relaxation_def
  apply (auto intro!: derivative_eq_intros simp: power2_eq_square)
  apply (simp add: field_simps)
  done

lemma drift_deriv_N2:
  "N2 \<noteq> 0 \<Longrightarrow> ((\<lambda>n. m + drift n cvert dt t) has_real_derivative (dt - t) / N2 ^ 2) (at N2)"
  unfolding drift_def
  by (auto intro!: derivative_eq_intros simp: power2_eq_square field_simps)


text \<open>
  C2. With K1, N0, N1 and N2 nonzero and the four auxiliary values present,
  \<open>saturation_function\<close> returns relaxation(t) * gate(t) + drift(t), the three terms
  being the formulas the specification writes.
\<close>

theorem saturation_function_formula:
  assumes "K1 \<noteq> 0" and "N0 \<noteq> 0" and "N1 \<noteq> 0" and "N2 \<noteq> 0"
    and "aux ''dt'' = Some dt" and "aux ''c3'' = Some c3"
    and "aux ''cvert'' = Some cvert" and "aux ''r'' = Some r"
  shows "saturation_function t [K1, N0, N1, N2] aux
         = Some (relaxation K1 N0 N1 dt t * gate c3 r dt t + drift N2 cvert dt t)"
  using saturation_function_closed [OF assms(5-8)] .

theorem saturation_function_formula_witness:
  "saturation_function 3 [1, 2, 4, 5] (aux_of 1 1 7 0)
   = Some (relaxation 1 2 4 1 3 * gate 1 0 1 3 + drift 5 7 1 3)"
  using saturation_function_formula [of 1 2 4 5 "aux_of 1 1 7 0" 1 1 7 0 3]
  by simp

subsection \<open>The analytic gradient\<close>

lemma get_saturation_gradient_N2_exact:
  assumes "N2 \<noteq> 0"
    and "aux ''dt'' = Some dt" and "aux ''c3'' = Some c3"
    and "aux ''cvert'' = Some cvert" and "aux ''r'' = Some r"
  shows "((\<lambda>n. the (saturation_function t [K1, N0, N1, n] aux)) has_real_derivative
          the (get_saturation_gradient t [K1, N0, N1, N2] aux) ! 3) (at N2)"
  unfolding saturation_function_closed [OF assms(2-5)] gradient_closed [OF assms(2-5)] option.sel
  using drift_deriv_N2 [OF assms(1)] by simp

lemma get_saturation_gradient_N1_exact:
  assumes "N1 \<noteq> 0"
    and "aux ''dt'' = Some dt" and "aux ''c3'' = Some c3"
    and "aux ''cvert'' = Some cvert" and "aux ''r'' = Some r"
  shows "((\<lambda>n. the (saturation_function t [K1, N0, n, N2] aux)) has_real_derivative
          the (get_saturation_gradient t [K1, N0, N1, N2] aux) ! 2) (at N1)"
proof -
  have "(t - dt) / ((N1 ^ 2) * (c3 * exp (r * (dt - t)) + 1)) = (t - dt) / N1 ^ 2 * gate c3 r dt t"
    unfolding gate_alt [symmetric] by simp
  then show ?thesis
    unfolding saturation_function_closed [OF assms(2-5)] gradient_closed [OF assms(2-5)] option.sel
    using relaxation_deriv_N1 [OF assms(1)] by simp
qed

lemma get_saturation_gradient_N0_exact:
  assumes "N0 \<noteq> 0" and "K1 \<noteq> 0"
    and "aux ''dt'' = Some dt" and "aux ''c3'' = Some c3"
    and "aux ''cvert'' = Some cvert" and "aux ''r'' = Some r"
  shows "((\<lambda>n. the (saturation_function t [K1, n, N1, N2] aux)) has_real_derivative
          the (get_saturation_gradient t [K1, N0, N1, N2] aux) ! 1) (at N0)"
proof -
  have "- (dt - t) * exp ((K1 * (dt - t)) / N0) / ((N0 ^ 2) * (c3 * exp (r * (dt - t)) + 1))
        = (t - dt) * exp (K1 * (dt - t) / N0) / N0 ^ 2 * gate c3 r dt t"
    unfolding gate_alt [symmetric] by simp
  then show ?thesis
    unfolding saturation_function_closed [OF assms(3-6)] gradient_closed [OF assms(3-6)] option.sel
    using relaxation_deriv_N0 [OF assms(1,2)] by simp
qed

text \<open>
  C1. The first entry that \<open>get_saturation_gradient\<close> returns is not the partial
  derivative of \<open>saturation_function\<close> in K1. At t = 0, (K1, N0, N1, N2) = (1, 1, -1, 1),
  dt = 1, c3 = 1, cvert = 0, r = 0 the code returns 1 and the derivative is 1/2. (The
  entries for N0, N1 and N2 are the derivatives: the three lemmas above.)
\<close>

theorem get_saturation_gradient_k1_not_derivative:
  "map_option (\<lambda>g. g ! 0) (get_saturation_gradient 0 [1, 1, - 1, 1] (aux_of 1 1 0 0)) = Some 1
   \<and> ((\<lambda>k. the (saturation_function 0 [k, 1, - 1, 1] (aux_of 1 1 0 0))) has_real_derivative 1 / 2) (at 1)
   \<and> \<not> ((\<lambda>k. the (saturation_function 0 [k, 1, - 1, 1] (aux_of 1 1 0 0))) has_real_derivative 1) (at 1)"
proof -
  have a: "map_option (\<lambda>g. g ! 0) (get_saturation_gradient 0 [1, 1, - 1, 1] (aux_of 1 1 0 0)) = Some 1"
    by (simp add: gradient_closed [of _ 1 1 0 0])
  have g: "gate 1 0 1 0 = 1 / 2"
    by (simp add: gate_def)
  have b: "((\<lambda>k. the (saturation_function 0 [k, 1, - 1, 1] (aux_of 1 1 0 0))) has_real_derivative 1 / 2) (at 1)"
    unfolding saturation_function_closed [of "aux_of 1 1 0 0" 1 1 0 0, simplified] option.sel
    using relaxation_deriv_K1 [of 1 1 "- 1" 1 0 "gate 1 0 1 0" "drift 1 0 1 0"]
    by (simp add: g)
  have c: False if "((\<lambda>k. the (saturation_function 0 [k, 1, - 1, 1] (aux_of 1 1 0 0))) has_real_derivative 1) (at 1)"
    using DERIV_unique [OF that b] by simp
  from a b c show ?thesis by blast
qed

subsection \<open>The objective and its gradient\<close>

lemma those_map_Some:
  "(\<And>x. x \<in> set xs \<Longrightarrow> f x = Some (g x)) \<Longrightarrow> those (map f xs) = Some (map g xs)"
  by (induction xs) simp_all

lemma over_array_saturation:
  assumes "aux ''dt'' = Some dt" and "aux ''c3'' = Some c3"
    and "aux ''cvert'' = Some cvert" and "aux ''r'' = Some r"
  shows "over_array (\<lambda>t. saturation_function t [K1, N0, N1, N2] aux) X
         = Some (map (\<lambda>t. relaxation K1 N0 N1 dt t * gate c3 r dt t + drift N2 cvert dt t) X)"
  unfolding over_array_def saturation_function_closed [OF assms]
  by (induction X) simp_all

lemma get_obj_function_closed:
  assumes "aux ''dt'' = Some dt" and "aux ''c3'' = Some c3"
    and "aux ''cvert'' = Some cvert" and "aux ''r'' = Some r"
    and "length Y = length X"
  shows "get_obj_function X Y aux [K1, N0, N1, N2]
         = Some (\<Sum>(x, y) \<leftarrow> zip X Y. (y - (relaxation K1 N0 N1 dt x * gate c3 r dt x + drift N2 cvert dt x)) ^ 2)"
proof -
  have "map2 (-) Y (map f X) = map (\<lambda>(x, y). y - f x) (zip X Y)" for f :: "real \<Rightarrow> real"
    using assms(5) by (induction X Y rule: list_induct2') simp_all
  then show ?thesis
    unfolding get_obj_function_def over_array_saturation [OF assms(1-4)]
    using assms(5) by (simp add: np_binop_def comp_def case_prod_unfold)
qed

lemma sum_list_products:
  "length Y = length X \<Longrightarrow>
   sum_list (map2 (+) (map2 (*) (map a Y) (map g X)) (map2 (*) (map b X) (map g X)))
   = (\<Sum>(x, y) \<leftarrow> zip X Y. a y * g x + b x * g x)" for a b g :: "real \<Rightarrow> real"
  by (induction Y X rule: list_induct2) simp_all

lemma get_gradient_closed:
  assumes "aux ''dt'' = Some dt" and "aux ''c3'' = Some c3"
    and "aux ''cvert'' = Some cvert" and "aux ''r'' = Some r"
    and "length Y = length X"
  shows "get_gradient X Y [K1, N0, N1, N2] aux
         = Some (map (\<lambda>j. \<Sum>(x, y) \<leftarrow> zip X Y.
                    - 2 * y * (the (get_saturation_gradient x [K1, N0, N1, N2] aux) ! j)
                    + 2 * the (saturation_function x [K1, N0, N1, N2] aux)
                        * (the (get_saturation_gradient x [K1, N0, N1, N2] aux) ! j)) [0..<4])"
proof -
  let ?p = "[K1, N0, N1, N2]"
  define G where "G = (\<lambda>x. the (get_saturation_gradient x ?p aux))"
  define F where "F = (\<lambda>x. the (saturation_function x ?p aux))"
  have g: "get_saturation_gradient x ?p aux = Some (G x)" for x
    by (simp add: G_def gradient_closed [OF assms(1-4)])
  have f: "saturation_function x ?p aux = Some (F x)" for x
    by (simp add: F_def saturation_function_closed [OF assms(1-4)])
  have "those (map (\<lambda>t. get_saturation_gradient t ?p aux) X) = Some (map G X)"
    by (rule those_map_Some) (rule g)
  then have oG: "over_array (\<lambda>t. get_saturation_gradient t ?p aux) X = Some (map G X)"
    by (simp add: over_array_def g)
  have "those (map (\<lambda>t. saturation_function t ?p aux) X) = Some (map F X)"
    by (rule those_map_Some) (rule f)
  then have oF: "over_array (\<lambda>t. saturation_function t ?p aux) X = Some (map F X)"
    by (simp add: over_array_def f)
  have row: "(do {
          grad_i \<leftarrow> (if j < length (map (\<lambda>i. map (\<lambda>g. g ! i) (map G X)) [0..<4])
                     then Some (map (\<lambda>i. map (\<lambda>g. g ! i) (map G X)) [0..<4] ! j) else None);
          F \<leftarrow> over_array (\<lambda>t. saturation_function t ?p aux) X;
          a \<leftarrow> np_binop (*) (map (\<lambda>y. - 2 * y) Y) grad_i;
          b \<leftarrow> np_binop (*) (map (\<lambda>f. 2 * f) F) grad_i;
          s \<leftarrow> np_binop (+) a b;
          Some (sum_list s)
        }) = Some (\<Sum>(x, y) \<leftarrow> zip X Y. - 2 * y * (G x ! j) + 2 * F x * (G x ! j))"
    if "j < 4" for j
    using that assms(5) sum_list_products [OF assms(5), of "\<lambda>y. - 2 * y" "\<lambda>x. G x ! j" "\<lambda>x. 2 * F x"]
    by (simp add: oF np_binop_def comp_def del: upt_Suc)
  have "get_gradient X Y ?p aux
        = Some (map (\<lambda>j. \<Sum>(x, y) \<leftarrow> zip X Y. - 2 * y * (G x ! j) + 2 * F x * (G x ! j)) [0..<4])"
  proof -
    have len: "length ?p = 4"
      by simp
    show ?thesis
      unfolding get_gradient_def oG Let_def Option.bind_lunit len
      by (rule those_map_Some) (rule row, simp)
  qed
  then show ?thesis
    unfolding G_def F_def .
qed

text \<open>
  C7. The objective closure returns the sum of squared residuals (lemma
  \<open>get_obj_function_closed\<close>), and the gradient closure sums
  \<open>- 2 * Y * g + 2 * M * g\<close> over the data with \<open>g\<close> the rows of
  \<open>get_saturation_gradient\<close> (lemma \<open>get_gradient_closed\<close>). Its first entry is not the derivative of the
  objective in K1: with the single sample (0, 0), parameters (1, 1, -1, 1), dt = 1, c3 = 1,
  cvert = 0, r = 0 it returns e - 4, and the derivative of the objective is e/2 - 2.
\<close>

theorem get_gradient_k1_not_objective_derivative:
  "map_option (\<lambda>g. g ! 0) (get_gradient_function [0] [0] (aux_of 1 1 0 0) [1, 1, - 1, 1]) = Some (exp 1 - 4)
   \<and> ((\<lambda>k. the (get_obj_function [0] [0] (aux_of 1 1 0 0) [k, 1, - 1, 1])) has_real_derivative exp 1 / 2 - 2) (at 1)
   \<and> \<not> ((\<lambda>k. the (get_obj_function [0] [0] (aux_of 1 1 0 0) [k, 1, - 1, 1])) has_real_derivative exp 1 - 4) (at 1)"
proof -
  have g: "gate 1 0 1 0 = 1 / 2"
    by (simp add: gate_def)
  have r: "relaxation 1 1 (- 1) 1 0 = exp 1 - 2"
    by (simp add: relaxation_def)
  have d: "drift 1 0 1 0 = - 1"
    by (simp add: drift_def)
  have a: "map_option (\<lambda>g. g ! 0) (get_gradient_function [0] [0] (aux_of 1 1 0 0) [1, 1, - 1, 1]) = Some (exp 1 - 4)"
    unfolding get_gradient_function_def get_gradient_def
    by (simp add: over_array_def gradient_closed [of _ 1 1 0 0]
        saturation_function_closed [of _ 1 1 0 0] np_binop_def Let_def g r d upt_rec field_simps)
  define F where "F = (\<lambda>k. relaxation k 1 (- 1) 1 0 * gate 1 0 1 0 + drift 1 0 1 0)"
  have F1: "F 1 = exp 1 / 2 - 2"
    by (simp add: F_def g r d field_simps)
  have F': "(F has_real_derivative 1 / 2) (at 1)"
    unfolding F_def
    using relaxation_deriv_K1 [of 1 1 "- 1" 1 0 "gate 1 0 1 0" "drift 1 0 1 0"]
    by (simp add: g)
  have "((\<lambda>k. (0 - F k) ^ 2) has_real_derivative exp 1 / 2 - 2) (at 1)"
    by (auto intro!: derivative_eq_intros F' simp: F1)
  moreover have "(\<lambda>k. the (get_obj_function [0] [0] (aux_of 1 1 0 0) [k, 1, - 1, 1])) = (\<lambda>k. (0 - F k) ^ 2)"
    by (simp add: get_obj_function_closed [of "aux_of 1 1 0 0" 1 1 0 0 "[0]" "[0]"] F_def)
  ultimately have b: "((\<lambda>k. the (get_obj_function [0] [0] (aux_of 1 1 0 0) [k, 1, - 1, 1])) has_real_derivative exp 1 / 2 - 2) (at 1)"
    by simp
  have e: "exp (1::real) \<le> 3"
    by (rule exp_le)
  have c: False if "((\<lambda>k. the (get_obj_function [0] [0] (aux_of 1 1 0 0) [k, 1, - 1, 1])) has_real_derivative exp 1 - 4) (at 1)"
    using DERIV_unique [OF that b] e by simp
  from a b c show ?thesis by blast
qed

subsection \<open>The candidates of the outer search\<close>

lemma guess_arrays_small:
  "length span_dt \<le> 200 \<Longrightarrow> guess_arrays span_dt span_cvert = Some ([], [])"
  by (simp add: guess_arrays_def max_itterations_def Let_def)

lemma guess_arrays_large:
  assumes "200 < length span_dt" and "length span_cvert = length span_dt"
  shows "guess_arrays span_dt span_cvert
         = Some (map (\<lambda>i. span_dt ! (i * ((length span_dt - 1) div 200))) [0..<200],
                 map (\<lambda>i. span_cvert ! (i * ((length span_dt - 1) div 200))) [0..<200])"
proof -
  define d where "d = (length span_dt - 1) div 200"
  have r: "i * d < length span_dt" if "i < 200" for i
  proof -
    have "i * d \<le> 199 * d" using that by simp
    also have "\<dots> \<le> 200 * d" by simp
    also have "\<dots> \<le> length span_dt - 1" by (simp add: d_def)
    also have "\<dots> < length span_dt" using assms(1) by simp
    finally show ?thesis .
  qed
  have a: "those (map (\<lambda>i. item span_dt (i * d)) [0..<200]) = Some (map (\<lambda>i. span_dt ! (i * d)) [0..<200])"
    by (rule those_map_Some) (simp add: item_def r)
  have b: "those (map (\<lambda>i. item span_cvert (i * d)) [0..<200]) = Some (map (\<lambda>i. span_cvert ! (i * d)) [0..<200])"
    by (rule those_map_Some) (simp add: item_def r assms(2))
  have "guess_arrays span_dt span_cvert
         = Some (map (\<lambda>i. span_dt ! (i * d)) [0..<200], map (\<lambda>i. span_cvert ! (i * d)) [0..<200])"
    unfolding guess_arrays_def max_itterations_def Let_def d_def [symmetric] a b
    using assms(1) by simp
  then show ?thesis
    by (simp add: d_def)
qed

lemma search_loop_Nil: "search_loop fit [] [] st = st"
  by (simp add: search_loop_def search_upto_def)

text \<open>
  C3. A window of more than 200 samples gives the 200 candidates at the indices
  \<open>i * ((n - 1) div 200)\<close> (lemma \<open>guess_arrays_large\<close>). A window of at most 200
  samples gives no candidate at all (lemma \<open>guess_arrays_small\<close>), where the claim has
  every point of the window: with three samples the loop runs no iteration and the
  program stops at the read of \<^verbatim>\<open>guess_dt[best_guess_index]\<close>.
\<close>

theorem guess_arrays_small_window_has_no_candidates:
  "guess_arrays [1, 2, 3] [4, 5, 6] = Some ([], [])
   \<and> loss_array (search_loop fit [] [] (initial_state aux)) = []
   \<and> main_search fit [1, 2, 3] [4, 5, 6] aux = Inl LookupError"
  by (simp add: guess_arrays_small search_loop_Nil main_search_def initial_state_def)

lemma search_upto_Suc:
  "search_upto fit gd gc (Suc k) st = search_step fit gd gc k (search_upto fit gd gc k st)"
  by (simp add: search_upto_def)

lemma search_upto_0: "search_upto fit gd gc 0 st = st"
  by (simp add: search_upto_def)

subsection \<open>The selection of the best fit\<close>

lemma fl_less_irrefl [simp]: "\<not> fl_less a a"
  by (cases a) simp_all

lemma fl_less_trans: "fl_less a b \<Longrightarrow> fl_less b c \<Longrightarrow> fl_less a c"
  by (cases a; cases b; cases c) simp_all

lemma fl_less_below: "fl_less a b \<Longrightarrow> \<not> fl_less c b \<Longrightarrow> c \<noteq> NaN \<Longrightarrow> fl_less a c"
  by (cases a; cases b; cases c) simp_all

lemma fl_less_not_NaN: "fl_less a b \<Longrightarrow> a \<noteq> NaN \<and> b \<noteq> NaN"
  by (cases a; cases b) simp_all

lemma search_step_aux:
  "aux_params (search_step fit gd gc index st) = (aux_params st)(''dt'' \<mapsto> gd ! index, ''cvert'' \<mapsto> gc ! index)"
  by (simp add: search_step_def Let_def split: prod.splits)

lemma search_upto_frame:
  "key \<noteq> ''dt'' \<Longrightarrow> key \<noteq> ''cvert'' \<Longrightarrow> aux_params (search_upto fit gd gc k st) key = aux_params st key"
  by (induction k) (simp_all add: search_upto_0 search_upto_Suc search_step_aux)

lemma search_upto_overwrite:
  "(aux_params (search_upto fit gd gc k (initial_state aux0)))(''dt'' \<mapsto> a, ''cvert'' \<mapsto> b)
   = aux0(''dt'' \<mapsto> a, ''cvert'' \<mapsto> b)"
  by (rule ext) (simp add: search_upto_frame initial_state_def)

lemma search_step_upto:
  "search_step fit gd gc k (search_upto fit gd gc k (initial_state aux0))
   = (let st = search_upto fit gd gc k (initial_state aux0);
          guess = fit (aux0(''dt'' \<mapsto> gd ! k, ''cvert'' \<mapsto> gc ! k));
          st1 = st\<lparr>aux_params := aux0(''dt'' \<mapsto> gd ! k, ''cvert'' \<mapsto> gc ! k),
                   loss_array := loss_array st @ [(gd ! k, snd guess)]\<rparr>
      in if fl_is_zero (loss st) \<or> fl_less (candidate_loss fit aux0 gd gc k) (loss st)
         then st1\<lparr>new_params := Some (fst guess), loss := candidate_loss fit aux0 gd gc k, best_guess_index := k\<rparr>
         else st1)"
  by (simp add: search_step_def search_upto_overwrite candidate_loss_def Let_def split: prod.splits)

lemma search_invariant:
  assumes "candidate_loss fit aux0 gd gc 0 \<noteq> NaN"
    and "\<forall>i<n. candidate_loss fit aux0 gd gc i \<noteq> Num 0"
    and "0 < k" and "k \<le> n"
  shows "best_guess_index (search_upto fit gd gc k (initial_state aux0)) < k
       \<and> loss (search_upto fit gd gc k (initial_state aux0))
           = candidate_loss fit aux0 gd gc (best_guess_index (search_upto fit gd gc k (initial_state aux0)))
       \<and> loss (search_upto fit gd gc k (initial_state aux0)) \<noteq> NaN
       \<and> (\<forall>j<k. \<not> fl_less (candidate_loss fit aux0 gd gc j) (loss (search_upto fit gd gc k (initial_state aux0))))
       \<and> (\<forall>j<best_guess_index (search_upto fit gd gc k (initial_state aux0)).
             candidate_loss fit aux0 gd gc j = NaN
             \<or> fl_less (loss (search_upto fit gd gc k (initial_state aux0))) (candidate_loss fit aux0 gd gc j))"
  using assms(3,4)
proof (induction k)
  case 0
  then show ?case by simp
next
  case (Suc k)
  let ?L = "candidate_loss fit aux0 gd gc"
  let ?st = "search_upto fit gd gc k (initial_state aux0)"
  show ?case
  proof (cases "k = 0")
    case True
    then show ?thesis
      using assms(1)
      by (simp add: search_upto_Suc search_step_upto Let_def)
        (simp add: search_upto_0 initial_state_def fl_is_zero_def)
  next
    case False
    then have "0 < k" and "k \<le> n"
      using Suc.prems by simp_all
    note hyp = Suc.IH [OF this]
    have IH: "best_guess_index ?st < k" "loss ?st = ?L (best_guess_index ?st)" "loss ?st \<noteq> NaN"
      "\<forall>j<k. \<not> fl_less (?L j) (loss ?st)"
      "\<forall>j<best_guess_index ?st. ?L j = NaN \<or> fl_less (loss ?st) (?L j)"
      using hyp by blast+
    have nz: "\<not> fl_is_zero (loss ?st)"
      using IH(1,2) assms(2) Suc.prems by (simp add: fl_is_zero_def)
    show ?thesis
    proof (cases "fl_less (?L k) (loss ?st)")
      case True
      have a: "\<not> fl_less (?L j) (?L k)" if "j < Suc k" for j
      proof (cases "j = k")
        case True
        then show ?thesis by simp
      next
        case False
        with that have "j < k" by simp
        with IH(4) have "\<not> fl_less (?L j) (loss ?st)" by simp
        with True show ?thesis using fl_less_trans by blast
      qed
      have b: "?L j = NaN \<or> fl_less (?L k) (?L j)" if "j < k" for j
        using IH(4) that True fl_less_below by blast
      show ?thesis
        using True a b fl_less_not_NaN [OF True]
        by (simp add: search_upto_Suc search_step_upto Let_def)
    next
      case no: False
      show ?thesis
        using no nz IH
        by (auto simp add: search_upto_Suc search_step_upto Let_def less_Suc_eq)
    qed
  qed
qed

lemma search_keeps_first_minimum:
  assumes "\<forall>i<length gd. candidate_loss fit aux0 gd gc i \<noteq> NaN"
    and "\<forall>i<length gd. candidate_loss fit aux0 gd gc i \<noteq> Num 0"
    and "0 < k" and "k \<le> length gd"
  shows "best_guess_index (search_upto fit gd gc k (initial_state aux0)) < k
       \<and> loss (search_upto fit gd gc k (initial_state aux0))
           = candidate_loss fit aux0 gd gc (best_guess_index (search_upto fit gd gc k (initial_state aux0)))
       \<and> (\<forall>j<k. \<not> fl_less (candidate_loss fit aux0 gd gc j) (loss (search_upto fit gd gc k (initial_state aux0))))
       \<and> (\<forall>j<best_guess_index (search_upto fit gd gc k (initial_state aux0)).
             fl_less (loss (search_upto fit gd gc k (initial_state aux0))) (candidate_loss fit aux0 gd gc j))"
proof -
  have "0 < length gd"
    using assms(3,4) by linarith
  then have "candidate_loss fit aux0 gd gc 0 \<noteq> NaN"
    using assms(1) by blast
  note inv = search_invariant [OF this assms(2,3,4)]
  have "candidate_loss fit aux0 gd gc j \<noteq> NaN"
    if "j < best_guess_index (search_upto fit gd gc k (initial_state aux0))" for j
    using that inv assms(1,4) by simp
  with inv show ?thesis by blast
qed

text \<open>
  C4. A retained loss of exactly 0 reads as "no best yet": the next candidate replaces
  it whatever its loss. With the losses 0 and 5 the search ends with the second candidate
  (index 1, loss 5) and not with the minimum; with the losses 0 and 0 it ends with the
  second candidate and not with the first. (With no loss equal to 0 or NaN the loop keeps
  the first minimum: lemma \<open>search_keeps_first_minimum\<close>.)
\<close>

theorem search_replaces_zero_loss_best:
  "best_guess_index (search_loop (\<lambda>aux. ([], if aux ''dt'' = Some 1 then Num 0 else Num 5)) [1, 2] [0, 0] (initial_state aux0)) = 1
   \<and> loss (search_loop (\<lambda>aux. ([], if aux ''dt'' = Some 1 then Num 0 else Num 5)) [1, 2] [0, 0] (initial_state aux0)) = Num 5
   \<and> loss_array (search_loop (\<lambda>aux. ([], if aux ''dt'' = Some 1 then Num 0 else Num 5)) [1, 2] [0, 0] (initial_state aux0)) = [(1, Num 0), (2, Num 5)]
   \<and> best_guess_index (search_loop (\<lambda>aux. ([], Num 0)) [1, 2] [0, 0] (initial_state aux0)) = 1
   \<and> loss_array (search_loop (\<lambda>aux. ([], Num 0)) [1, 2] [0, 0] (initial_state aux0)) = [(1, Num 0), (2, Num 0)]"
  by (simp add: search_loop_def numeral_2_eq_2 search_upto_Suc search_upto_0 search_step_def
      initial_state_def fl_is_zero_def Let_def)

text \<open>
  C5, as stated, fails: the first candidate is adopted whatever its loss, and nothing is
  less than NaN afterwards. With the losses NaN and 1 the search ends with the candidate
  whose loss is NaN.
\<close>

theorem search_selects_nan_first_candidate:
  "loss (search_loop (\<lambda>aux. ([], if aux ''dt'' = Some 1 then NaN else Num 1)) [1, 2] [0, 0] (initial_state Map.empty)) = NaN
   \<and> best_guess_index (search_loop (\<lambda>aux. ([], if aux ''dt'' = Some 1 then NaN else Num 1)) [1, 2] [0, 0] (initial_state Map.empty)) = 0
   \<and> loss_array (search_loop (\<lambda>aux. ([], if aux ''dt'' = Some 1 then NaN else Num 1)) [1, 2] [0, 0] (initial_state Map.empty)) = [(1, NaN), (2, Num 1)]"
  by (simp add: search_loop_def numeral_2_eq_2 search_upto_Suc search_upto_0 search_step_def
      initial_state_def fl_is_zero_def Let_def)

text \<open>
  C5, amended. When the loss of the first candidate is not NaN, no candidate has a loss of
  exactly 0 (nor of minus infinity, which a sum of squares never is) and some candidate
  has a finite loss, the search ends with a candidate whose loss is finite.
\<close>

theorem search_selects_finite_loss:
  assumes "candidate_loss fit aux0 guess_dt guess_cvert 0 \<noteq> NaN"
    and "\<forall>i<length guess_dt. candidate_loss fit aux0 guess_dt guess_cvert i \<noteq> Num 0"
    and "\<forall>i<length guess_dt. candidate_loss fit aux0 guess_dt guess_cvert i \<noteq> NegInf"
    and "\<exists>i<length guess_dt. \<exists>x. candidate_loss fit aux0 guess_dt guess_cvert i = Num x"
  shows "best_guess_index (search_loop fit guess_dt guess_cvert (initial_state aux0)) < length guess_dt
       \<and> loss (search_loop fit guess_dt guess_cvert (initial_state aux0))
           = candidate_loss fit aux0 guess_dt guess_cvert
               (best_guess_index (search_loop fit guess_dt guess_cvert (initial_state aux0)))
       \<and> (\<exists>x. loss (search_loop fit guess_dt guess_cvert (initial_state aux0)) = Num x)"
proof -
  let ?st = "search_loop fit guess_dt guess_cvert (initial_state aux0)"
  let ?L = "candidate_loss fit aux0 guess_dt guess_cvert"
  obtain i x where i: "i < length guess_dt" "?L i = Num x"
    using assms(4) by blast
  then have "0 < length guess_dt" by linarith
  from search_invariant [OF assms(1,2) this order_refl]
  have inv: "best_guess_index ?st < length guess_dt" "loss ?st = ?L (best_guess_index ?st)"
    "loss ?st \<noteq> NaN" "\<forall>j<length guess_dt. \<not> fl_less (?L j) (loss ?st)"
    unfolding search_loop_def by blast+
  have "loss ?st \<noteq> NegInf"
    using inv(1,2) assms(3) by simp
  moreover have "\<not> fl_less (Num x) (loss ?st)"
    using inv(4) i by force
  ultimately have "\<exists>y. loss ?st = Num y"
    using inv(3) by (cases "loss ?st") simp_all
  with inv(1,2) show ?thesis by blast
qed

theorem search_selects_finite_loss_witness:
  "loss (search_loop (\<lambda>aux. ([], if aux ''dt'' = Some 1 then PosInf else if aux ''dt'' = Some 2 then NaN else Num 3))
      [1, 2, 3] [0, 0, 0] (initial_state Map.empty)) = Num 3"
proof -
  let ?fit = "\<lambda>aux :: aux_parameters. ([] :: real list, if aux ''dt'' = Some 1 then PosInf else if aux ''dt'' = Some 2 then NaN else Num 3)"
  let ?L = "candidate_loss ?fit Map.empty [1, 2, 3] [0, 0, 0]"
  have L: "?L 0 = PosInf" "?L (Suc 0) = NaN" "?L 2 = Num 3"
    by (simp_all add: candidate_loss_def)
  have all: "P 0 \<Longrightarrow> P (Suc 0) \<Longrightarrow> P 2 \<Longrightarrow> \<forall>i<length [1, 2, 3 :: real]. P i" for P
    by (auto simp: less_Suc_eq numeral_3_eq_3 numeral_2_eq_2)
  have a: "?L 0 \<noteq> NaN" by (simp add: L)
  have b: "\<forall>i<length [1, 2, 3 :: real]. ?L i \<noteq> Num 0" by (rule all) (simp_all add: L)
  have c: "\<forall>i<length [1, 2, 3 :: real]. ?L i \<noteq> NegInf" by (rule all) (simp_all add: L)
  have d: "\<exists>i<length [1, 2, 3 :: real]. \<exists>x. ?L i = Num x"
    by (rule exI [of _ 2]) (simp add: L)
  from search_selects_finite_loss [OF a b c d] obtain x where
    x: "loss (search_loop ?fit [1, 2, 3] [0, 0, 0] (initial_state Map.empty)) = Num x"
    and e: "loss (search_loop ?fit [1, 2, 3] [0, 0, 0] (initial_state Map.empty))
            = ?L (best_guess_index (search_loop ?fit [1, 2, 3] [0, 0, 0] (initial_state Map.empty)))"
    and f: "best_guess_index (search_loop ?fit [1, 2, 3] [0, 0, 0] (initial_state Map.empty)) < length [1, 2, 3 :: real]"
    by blast
  have "best_guess_index (search_loop ?fit [1, 2, 3] [0, 0, 0] (initial_state Map.empty)) = 2"
    using x e f L by (auto simp: less_Suc_eq numeral_3_eq_3 numeral_2_eq_2)
  with e L show ?thesis by simp
qed

subsection \<open>The asymptote finder\<close>

lemma length_4E:
  assumes "length xs = 4"
  obtains a b c d where "xs = [a, b, c, d]"
  using assms by (auto simp: length_Suc_conv numeral_eq_Suc)

lemma saturation_function_defined:
  assumes "length parameters = 4"
    and "aux ''dt'' = Some dt" and "aux ''c3'' = Some c3"
    and "aux ''cvert'' = Some cvert" and "aux ''r'' = Some r"
  shows "saturation_function t parameters aux = Some (model_at parameters aux t)"
proof -
  obtain a b c d where "parameters = [a, b, c, d]"
    using assms(1) by (rule length_4E)
  then show ?thesis
    by (simp add: model_at_def saturation_function_closed [OF assms(2-5)])
qed

lemma asymtote_loop_find:
  assumes "\<And>t. saturation_function t parameters aux = Some (model_at parameters aux t)"
  shows "asymtote_loop parameters aux dt ref is
         = (case find (\<lambda>i. ref * 0.01 > \<bar>deltadelta parameters aux (dt * real i)\<bar>) is of
              None \<Rightarrow> Inl (SystemExit 1)
            | Some i \<Rightarrow> Inr (asymptote_value parameters aux dt i))"
  by (induction "is")
    (simp_all add: assms Let_def deltadelta_def asymptote_value_def forward_slope_def)

lemma getAsymtote_Y_find:
  assumes "length parameters = 4"
    and "aux ''dt'' = Some dt" and "aux ''c3'' = Some c3"
    and "aux ''cvert'' = Some cvert" and "aux ''r'' = Some r"
  shows "getAsymtote_Y parameters aux
         = (case find (asymptote_test parameters aux dt) [1..<100] of
              None \<Rightarrow> Inl (SystemExit 1)
            | Some i \<Rightarrow> Inr (asymptote_value parameters aux dt i))"
proof -
  note d = saturation_function_defined [OF assms]
  have "(\<lambda>i. \<bar>deltadelta parameters aux dt\<bar> * 0.01 > \<bar>deltadelta parameters aux (dt * real i)\<bar>)
        = asymptote_test parameters aux dt"
    by (simp add: asymptote_test_def fun_eq_iff mult.commute)
  then show ?thesis
    unfolding getAsymtote_Y_def
    by (simp add: assms(2) d asymtote_loop_find [OF d] flip: deltadelta_def)
qed

text \<open>
  C6. With \<open>ref\<close> the absolute \<open>deltadelta\<close> at \<open>dt\<close>: \<open>getAsymtote_Y\<close> returns a
  value exactly when some \<open>i\<close> from 1 to 99 passes the test \<open>0.01 * ref > |deltadelta (dt * i)|\<close>;
  at the first such \<open>i\<close> it returns the model value at \<open>dt * i\<close> when the forward
  slope there is negative and that value minus \<open>dt * i\<close> times the slope otherwise; when
  no \<open>i\<close> passes, the run ends in \<^verbatim>\<open>sys.exit(1)\<close>.
\<close>

theorem getAsymtote_Y_first_flat_index:
  assumes "length parameters = 4"
    and "aux ''dt'' = Some dt" and "aux ''c3'' = Some c3"
    and "aux ''cvert'' = Some cvert" and "aux ''r'' = Some r"
  shows "((\<exists>v. getAsymtote_Y parameters aux = Inr v) \<longleftrightarrow> (\<exists>i\<in>{1..<100}. asymptote_test parameters aux dt i))
       \<and> (\<forall>i\<in>{1..<100}. asymptote_test parameters aux dt i
             \<and> (\<forall>j\<in>{1..<i}. \<not> asymptote_test parameters aux dt j)
           \<longrightarrow> getAsymtote_Y parameters aux = Inr (asymptote_value parameters aux dt i))
       \<and> ((\<forall>i\<in>{1..<100}. \<not> asymptote_test parameters aux dt i)
           \<longrightarrow> getAsymtote_Y parameters aux = Inl (SystemExit 1))"
proof -
  let ?P = "asymptote_test parameters aux dt"
  note g = getAsymtote_Y_find [OF assms]
  have none: "find ?P [1..<100] = None \<longleftrightarrow> (\<forall>i\<in>{1..<100}. \<not> ?P i)"
    by (auto simp add: find_None_iff)
  have a: "(\<exists>v. getAsymtote_Y parameters aux = Inr v) \<longleftrightarrow> (\<exists>i\<in>{1..<100}. ?P i)"
    unfolding g using none by (cases "find ?P [1..<100]") auto
  have b: "getAsymtote_Y parameters aux = Inr (asymptote_value parameters aux dt i)"
    if "i \<in> {1..<100}" "?P i" "\<forall>j\<in>{1..<i}. \<not> ?P j" for i
  proof -
    have "find ?P [1..<100] = Some i"
      unfolding find_Some_iff
    proof (intro exI [of _ "i - 1"] conjI allI impI)
      show "i - 1 < length [1..<100]" using that(1) by auto
      show "?P ([1..<100] ! (i - 1))" using that(1,2) by auto
      show "i = [1..<100] ! (i - 1)" using that(1) by auto
      show "\<not> ?P ([1..<100] ! j)" if "j < i - 1" for j
        using that \<open>i \<in> {1..<100}\<close> \<open>\<forall>j\<in>{1..<i}. \<not> ?P j\<close> by auto
    qed
    then show ?thesis by (simp add: g)
  qed
  have c: "getAsymtote_Y parameters aux = Inl (SystemExit 1)" if "\<forall>i\<in>{1..<100}. \<not> ?P i"
    using that none by (simp add: g)
  from a b c show ?thesis by blast
qed

theorem getAsymtote_Y_first_flat_index_witness:
  "getAsymtote_Y [1, 1, 1, 1] (aux_of 0 1 0 0) = Inl (SystemExit 1)"
proof -
  have "\<forall>i\<in>{1..<100}. \<not> asymptote_test [1, 1, 1, 1] (aux_of 0 1 0 0) 0 i"
    by (simp add: asymptote_test_def)
  then show ?thesis
    using getAsymtote_Y_first_flat_index [of "[1, 1, 1, 1]" "aux_of 0 1 0 0" 0 1 0 0] by simp
qed

subsection \<open>What the search writes to the auxiliary parameters\<close>

lemma search_upto_bound:
  assumes "0 < k" and "\<And>aux. P (fst (fit aux))"
  shows "best_guess_index (search_upto fit gd gc k (initial_state aux0)) < k
     \<and> (\<exists>p. new_params (search_upto fit gd gc k (initial_state aux0)) = Some p \<and> P p)"
  using assms(1)
proof (induction k)
  case 0
  then show ?case by simp
next
  case (Suc k)
  show ?case
  proof (cases "k = 0")
    case True
    have "loss (search_upto fit gd gc 0 (initial_state aux0)) = Num 0"
      by (simp add: search_upto_0 initial_state_def)
    then show ?thesis
      unfolding True search_upto_Suc search_step_upto
      by (simp add: Let_def fl_is_zero_def assms(2))
  next
    case False
    with Suc.IH show ?thesis
      by (auto simp add: search_upto_Suc search_step_upto Let_def less_Suc_eq assms(2))
  qed
qed

lemma main_search_frame:
  assumes "main_search fit span_dt span_cvert aux0 = Inr st'"
    and "key \<noteq> ''dt''" and "key \<noteq> ''cvert''" and "key \<noteq> ''bt''"
  shows "aux_params st' key = aux0 key"
proof -
  obtain gd gc where g: "guess_arrays span_dt span_cvert = Some (gd, gc)"
    using assms(1) by (auto simp: main_search_def split: option.splits)
  let ?st = "search_loop fit gd gc (initial_state aux0)"
  obtain v where "aux_params st' = ((aux_params ?st)(''dt'' \<mapsto> gd ! best_guess_index ?st,
      ''cvert'' \<mapsto> gc ! best_guess_index ?st))(''bt'' \<mapsto> v)"
    using assms(1) unfolding main_search_def g
    by (auto simp: Let_def split: if_splits option.splits sum.splits)
  then show ?thesis
    using assms(2-4) by (simp add: search_loop_def search_upto_frame initial_state_def)
qed

lemma USER_DEFINED_PARAMS_not_mutated:
  "key \<in> USER_DEFINED_PARAMS \<Longrightarrow> key \<noteq> ''dt'' \<and> key \<noteq> ''cvert'' \<and> key \<noteq> ''bt''"
  by (auto simp: USER_DEFINED_PARAMS_def)

text \<open>
  C9. An iteration of the search writes the entries \<open>dt\<close> and \<open>cvert\<close> of the
  dictionary, once each, and no other; after any number of iterations every other entry
  is what it was at the start; and when the run ends, the eight entries read from the
  parameter file (c3, r, dt_min, dt_max and the four cutoffs) are still what they were.
\<close>

theorem search_mutates_only_dt_and_cvert:
  "aux_params (search_step fit guess_dt guess_cvert index st)
     = (aux_params st)(''dt'' \<mapsto> guess_dt ! index, ''cvert'' \<mapsto> guess_cvert ! index)
   \<and> (\<forall>k key. key \<noteq> ''dt'' \<and> key \<noteq> ''cvert''
         \<longrightarrow> aux_params (search_upto fit guess_dt guess_cvert k (initial_state aux0)) key = aux0 key)
   \<and> (\<forall>st' key. main_search fit span_dt span_cvert aux0 = Inr st' \<and> key \<in> USER_DEFINED_PARAMS
         \<longrightarrow> aux_params st' key = aux0 key)"
  using search_step_aux [of fit guess_dt guess_cvert index st]
    search_upto_frame [of _ fit guess_dt guess_cvert _ "initial_state aux0"]
    main_search_frame [of fit span_dt span_cvert aux0]
    USER_DEFINED_PARAMS_not_mutated
  by (simp add: initial_state_def)

text \<open>A run that ends well: 201 samples at time 100, a fit that returns (1, 1, 1, 1).\<close>

lemma example_model_at:
  assumes "aux ''dt'' = Some 100" and "aux ''c3'' = Some 1"
    and "aux ''cvert'' = Some 0" and "aux ''r'' = Some 0"
  shows "model_at [1, 1, 1, 1] aux t = exp (100 - t) / 2 + (t - 100) / 2 - 1 / 2"
  unfolding model_at_def saturation_function_closed [OF assms] option.sel
  by (simp add: relaxation_def gate_def drift_def field_simps)

lemma example_deltadelta:
  assumes "aux ''dt'' = Some 100" and "aux ''c3'' = Some 1"
    and "aux ''cvert'' = Some 0" and "aux ''r'' = Some 0"
  shows "deltadelta [1, 1, 1, 1] aux t = exp (100 - t) * ((2 - exp 1 - exp (- 1)) / 2)"
proof -
  have a: "exp (100 - (t - 1)) = exp (100 - t) * exp 1"
    by (simp add: exp_add [symmetric])
  have b: "exp (100 - (t + 1)) = exp (100 - t) * exp (- 1)"
    by (simp add: exp_add [symmetric])
  show ?thesis
    unfolding deltadelta_def example_model_at [OF assms] a b
    by (simp add: field_simps)
qed

lemma example_test:
  assumes "aux ''dt'' = Some 100" and "aux ''c3'' = Some 1"
    and "aux ''cvert'' = Some 0" and "aux ''r'' = Some 0"
  shows "asymptote_test [1, 1, 1, 1] aux 100 2"
proof -
  define c :: real where "c = (2 - exp 1 - exp (- 1)) / 2"
  have "(1::real) + 1 \<le> exp 1"
    by (rule exp_ge_add_one_self)
  then have "2 - exp 1 - exp (- 1) < (0::real)"
    using exp_gt_zero [of "- 1 :: real"] by linarith
  then have c: "c < 0"
    unfolding c_def by (simp add: divide_less_0_iff)
  have "(1::real) + 100 \<le> exp 100"
    by (rule exp_ge_add_one_self)
  then have "exp (- 100 :: real) < 1 / 100"
    by (simp add: exp_minus field_simps)
  then have "\<bar>exp (- 100) * c\<bar> < 0.01 * \<bar>c\<bar>"
    using c by (simp add: abs_mult)
  then show ?thesis
    unfolding asymptote_test_def example_deltadelta [OF assms] c_def [symmetric]
    by simp
qed

lemma example_guess_arrays:
  "\<exists>gd gc. guess_arrays (replicate 201 100) (replicate 201 0) = Some (gd, gc)
     \<and> length gd = 200 \<and> (\<forall>i<200. gd ! i = 100 \<and> gc ! i = 0)"
  by (simp add: guess_arrays_large)

lemma example_main_search:
  "\<exists>st'. main_search (\<lambda>aux. ([1, 1, 1, 1], Num 1)) (replicate 201 100) (replicate 201 0)
      [''c3'' \<mapsto> 1, ''r'' \<mapsto> 0, ''optimization_left_cutoff'' \<mapsto> 0] = Inr st'"
proof -
  let ?fit = "\<lambda>aux :: aux_parameters. ([1, 1, 1, 1 :: real], Num 1)"
  let ?aux0 = "[''c3'' \<mapsto> 1, ''r'' \<mapsto> 0, ''optimization_left_cutoff'' \<mapsto> 0 :: real]"
  obtain gd gc where g: "guess_arrays (replicate 201 100) (replicate 201 0) = Some (gd, gc)"
    and len: "length gd = 200" and el: "\<forall>i<200. gd ! i = 100 \<and> gc ! i = 0"
    using example_guess_arrays by blast
  let ?st = "search_loop ?fit gd gc (initial_state ?aux0)"
  have b: "best_guess_index ?st < 200" and np: "new_params ?st = Some [1, 1, 1, 1]"
    using search_upto_bound [of 200 "\<lambda>p. p = [1, 1, 1, 1]" ?fit gd gc ?aux0]
    by (auto simp add: search_loop_def len)
  let ?aux1 = "?aux0(''dt'' \<mapsto> 100, ''cvert'' \<mapsto> 0)"
  have aux1: "(aux_params ?st)(''dt'' \<mapsto> gd ! best_guess_index ?st, ''cvert'' \<mapsto> gc ! best_guess_index ?st) = ?aux1"
    using el b by (simp add: search_loop_def search_upto_overwrite)
  have keys: "?aux1 ''dt'' = Some 100" "?aux1 ''c3'' = Some 1" "?aux1 ''cvert'' = Some 0" "?aux1 ''r'' = Some 0"
    by simp_all
  have "asymptote_test [1, 1, 1, 1] ?aux1 100 2"
    by (rule example_test [OF keys])
  moreover have "2 \<in> set [1..<100::nat]"
    by simp
  ultimately have "find (asymptote_test [1, 1, 1, 1] ?aux1 100) [1..<100] \<noteq> None"
    unfolding find_None_iff by blast
  moreover have "getAsymtote_Y [1, 1, 1, 1] ?aux1
      = (case find (asymptote_test [1, 1, 1, 1] ?aux1 100) [1..<100] of
           None \<Rightarrow> Inl (SystemExit 1)
         | Some i \<Rightarrow> Inr (asymptote_value [1, 1, 1, 1] ?aux1 100 i))"
    by (rule getAsymtote_Y_find [OF _ keys]) simp
  ultimately obtain v where v: "getAsymtote_Y [1, 1, 1, 1] ?aux1 = Inr v"
    by (cases "find (asymptote_test [1, 1, 1, 1] ?aux1 100) [1..<100]") simp_all
  obtain w where w: "saturation_function 0 [1, 1, 1, 1] ?aux1 = Some w"
    unfolding saturation_function_closed [OF keys] by simp
  have c: "?aux1 ''optimization_left_cutoff'' = Some 0"
    by simp
  show ?thesis
    unfolding main_search_def g
    using b by (simp add: Let_def len aux1 np v w c raising_def del: fun_upd_apply)
qed

theorem search_mutates_only_dt_and_cvert_witness:
  "\<exists>st'. main_search (\<lambda>aux. ([1, 1, 1, 1], Num 1)) (replicate 201 100) (replicate 201 0)
      [''c3'' \<mapsto> 1, ''r'' \<mapsto> 0, ''optimization_left_cutoff'' \<mapsto> 0] = Inr st'
     \<and> aux_params st' ''c3'' = Some 1
     \<and> aux_params (search_upto (\<lambda>aux. ([1, 1, 1, 1], Num 1)) [100, 100] [0, 0] 2
          (initial_state [''c3'' \<mapsto> 1, ''r'' \<mapsto> 0, ''optimization_left_cutoff'' \<mapsto> 0])) ''c3'' = Some 1"
proof -
  let ?fit = "\<lambda>aux :: aux_parameters. ([1, 1, 1, 1 :: real], Num 1)"
  let ?aux0 = "[''c3'' \<mapsto> 1, ''r'' \<mapsto> 0, ''optimization_left_cutoff'' \<mapsto> 0 :: real]"
  obtain st' where s: "main_search ?fit (replicate 201 100) (replicate 201 0) ?aux0 = Inr st'"
    using example_main_search by blast
  have u: "''c3'' \<in> USER_DEFINED_PARAMS"
    by (simp add: USER_DEFINED_PARAMS_def)
  note t = search_mutates_only_dt_and_cvert [of ?fit "[100, 100]" "[0, 0]" 0 "initial_state ?aux0" ?aux0 "replicate 201 100" "replicate 201 0"]
  have "aux_params st' ''c3'' = ?aux0 ''c3''"
    using t s u by blast
  moreover have "aux_params (search_upto ?fit [100, 100] [0, 0] 2 (initial_state ?aux0)) ''c3'' = ?aux0 ''c3''"
    using t by simp
  ultimately show ?thesis
    using s by simp
qed

subsection \<open>The parameter file\<close>

lemma is_space_lower_char [simp]: "is_space (lower_char c) = is_space c"
proof (cases "65 \<le> (of_char c :: nat) \<and> (of_char c :: nat) \<le> 90")
  case True
  define n where "n = (of_char c :: nat)"
  have a: "\<not> is_space c"
    using True by (auto simp: is_space_def)
  have "of_char (char_of (n + 32) :: char) = n + 32"
    using True by (simp add: n_def)
  moreover have "(of_char d :: nat) \<in> {32, 9, 10, 11, 12, 13}" if "is_space d" for d
    using that by (auto simp: is_space_def)
  ultimately have "\<not> is_space (char_of (n + 32))"
    using True unfolding n_def [symmetric] by fastforce
  with a True show ?thesis
    by (simp add: lower_char_def Let_def n_def)
next
  case False
  then show ?thesis
    by (auto simp add: lower_char_def Let_def)
qed

lemma strip_lower: "strip (lower s) = lower (strip s)"
  by (simp add: strip_def lower_def dropWhile_map rev_map comp_def)

lemma index_of_Some: "x \<in> set xs \<Longrightarrow> \<exists>i. index_of xs x = Some i"
  by (induction xs) auto

lemma read_lines_keys:
  "read_lines float64 lines (parameters, d) = Inr (parameters', d')
   \<Longrightarrow> file_keys lines \<subseteq> set TUNED_PARAMS \<union> USER_DEFINED_PARAMS
       \<and> dom d' = dom d \<union> (file_keys lines - set TUNED_PARAMS)"
proof (induction lines arbitrary: parameters d)
  case Nil
  then show ?case by (simp add: file_keys_def data_lines_def)
next
  case (Cons line rest)
  show ?case
  proof (cases "startswith line ''#'' \<or> length (strip line) = 0")
    case True
    then have fk: "file_keys (line # rest) = file_keys rest"
      by (auto simp add: file_keys_def data_lines_def)
    have "read_lines float64 (line # rest) (parameters, d) = read_lines float64 rest (parameters, d)"
      using True by simp
    with Cons.prems have "read_lines float64 rest (parameters, d) = Inr (parameters', d')"
      by simp
    from Cons.IH [OF this] show ?thesis
      unfolding fk .
  next
    case False
    then have fk: "file_keys (line # rest) = insert (line_key line) (file_keys rest)"
      by (simp add: file_keys_def data_lines_def)
    obtain row0 row_rest where row: "map strip (split CHR ''='' line) = row0 # row_rest"
      using Cons.prems False by (cases "map strip (split CHR ''='' line)") simp_all
    then have lk: "line_key line = strip (lower row0)"
      by (simp add: line_key_def)
    show ?thesis
    proof (cases "strip (lower row0) \<in> set TUNED_PARAMS")
      case True
      with Cons.prems False row obtain p2 where "read_lines float64 rest (p2, d) = Inr (parameters', d')"
        by (auto split: option.splits list.splits)
      from Cons.IH [OF this] True show ?thesis
        unfolding fk lk by auto
    next
      case nt: False
      show ?thesis
      proof (cases "strip (lower row0) \<in> USER_DEFINED_PARAMS")
        case True
        with Cons.prems False row nt obtain v
          where "read_lines float64 rest (parameters, d(strip (lower row0) \<mapsto> v)) = Inr (parameters', d')"
          by (auto split: option.splits list.splits)
        have du: "dom (d(strip (lower row0) \<mapsto> v)) = insert (strip (lower row0)) (dom d)"
          by simp
        note ih = Cons.IH [OF \<open>read_lines float64 rest (parameters, d(strip (lower row0) \<mapsto> v)) = Inr (parameters', d')\<close>, unfolded du]
        have a: "file_keys rest \<subseteq> set TUNED_PARAMS \<union> USER_DEFINED_PARAMS"
          by (rule conjunct1 [OF ih])
        have b: "dom d' = insert (strip (lower row0)) (dom d) \<union> (file_keys rest - set TUNED_PARAMS)"
          by (rule conjunct2 [OF ih])
        have c: "insert (strip (lower row0)) (file_keys rest) - set TUNED_PARAMS
                 = insert (strip (lower row0)) (file_keys rest - set TUNED_PARAMS)"
          using nt by (rule insert_Diff_if [THEN trans, OF if_not_P])
        show ?thesis
          unfolding fk lk b c using a True by simp
      next
        case False
        with Cons.prems \<open>\<not> (startswith line ''#'' \<or> length (strip line) = 0)\<close> row nt show ?thesis
          by simp
      qed
    qed
  qed
qed

lemma read_lines_succeeds:
  "file_keys lines \<subseteq> set TUNED_PARAMS \<union> USER_DEFINED_PARAMS
   \<Longrightarrow> \<forall>line\<in>set (data_lines lines). line_value_ok float64 line
   \<Longrightarrow> \<exists>parameters' d'. read_lines float64 lines (parameters, d) = Inr (parameters', d')"
proof (induction lines arbitrary: parameters d)
  case Nil
  then show ?case by simp
next
  case (Cons line rest)
  show ?case
  proof (cases "startswith line ''#'' \<or> length (strip line) = 0")
    case True
    then have fk: "file_keys (line # rest) = file_keys rest"
      and dl: "data_lines (line # rest) = data_lines rest"
      by (auto simp add: file_keys_def data_lines_def)
    have "read_lines float64 (line # rest) (parameters, d) = read_lines float64 rest (parameters, d)"
      using True by simp
    then show ?thesis
      using Cons.IH [of parameters d] Cons.prems unfolding fk dl by simp
  next
    case False
    then have fk: "file_keys (line # rest) = insert (line_key line) (file_keys rest)"
      and dl: "data_lines (line # rest) = line # data_lines rest"
      by (simp_all add: file_keys_def data_lines_def)
    have ok: "line_value_ok float64 line"
      using Cons.prems(2) dl by simp
    then obtain row0 row1 row_rest v where row: "map strip (split CHR ''='' line) = row0 # row1 # row_rest"
      and v: "float64 (strip row1) = Some v"
      by (auto simp: line_value_ok_def split: list.splits)
    then have lk: "line_key line = strip (lower row0)"
      by (simp add: line_key_def)
    have rest: "\<exists>parameters' d'. read_lines float64 rest (p2, d2) = Inr (parameters', d')" for p2 d2
      using Cons.IH [of p2 d2] Cons.prems fk dl by simp
    show ?thesis
    proof (cases "strip (lower row0) \<in> set TUNED_PARAMS")
      case True
      then obtain i where "index_of TUNED_PARAMS (lower (strip row0)) = Some i"
        using index_of_Some [of "lower (strip row0)" TUNED_PARAMS] by (auto simp: strip_lower)
      with True False row v rest show ?thesis
        by simp
    next
      case nt: False
      then have "strip (lower row0) \<in> USER_DEFINED_PARAMS"
        using Cons.prems(1) fk lk by simp
      with nt False row v rest show ?thesis
        by simp
    qed
  qed
qed

lemma ask_find:
  "ask answers = (case find (\<lambda>a. a = ''y'' \<or> a = ''n'') answers of None \<Rightarrow> Inl EOFError | Some a \<Rightarrow> Inr a)"
  by (induction answers) simp_all

lemma TUNED_USER_disjoint: "k \<in> USER_DEFINED_PARAMS \<Longrightarrow> k \<notin> set TUNED_PARAMS"
  by (auto simp: USER_DEFINED_PARAMS_def TUNED_PARAMS_def)

lemma read_parameters_from_file_bad:
  assumes bad: "\<not> USER_DEFINED_PARAMS \<subseteq> file_keys lines \<or> \<not> file_keys lines \<subseteq> set TUNED_PARAMS \<union> USER_DEFINED_PARAMS"
  shows "isl (read_parameters_from_file float64 lines answers)"
proof -
  let ?init = "(replicate (length TUNED_PARAMS) (0::real), Map.empty :: aux_parameters)"
  show ?thesis
  proof (cases "read_lines float64 lines ?init")
    case (Inl e)
    then show ?thesis by (simp add: read_parameters_from_file_def)
  next
    case (Inr pd)
    obtain p d where pd: "pd = (p, d)" by (cases pd)
    from read_lines_keys [OF Inr [unfolded pd]]
    have k: "file_keys lines \<subseteq> set TUNED_PARAMS \<union> USER_DEFINED_PARAMS"
      and d: "dom d = file_keys lines - set TUNED_PARAMS" by simp_all
    with bad obtain key where "key \<in> USER_DEFINED_PARAMS" "key \<notin> file_keys lines" by blast
    then have "key \<in> Set.filter (\<lambda>k. d k = None) USER_DEFINED_PARAMS"
      using d by (auto simp: dom_def)
    then have "Set.filter (\<lambda>k. d k = None) USER_DEFINED_PARAMS \<noteq> {}" by blast
    then show ?thesis
      by (simp add: read_parameters_from_file_def Inr pd Let_def)
  qed
qed

lemma read_parameters_from_file_good:
  assumes good: "USER_DEFINED_PARAMS \<subseteq> file_keys lines \<and> file_keys lines \<subseteq> set TUNED_PARAMS \<union> USER_DEFINED_PARAMS
        \<and> (\<forall>line\<in>set (data_lines lines). line_value_ok float64 line)"
  shows "\<exists>p d. dom d = USER_DEFINED_PARAMS
       \<and> read_parameters_from_file float64 lines answers
           = (case find (\<lambda>a. a = ''y'' \<or> a = ''n'') answers of
                None \<Rightarrow> Inl EOFError
              | Some user_in \<Rightarrow> if user_in = ''y'' then Inr (p, d) else Inl (SystemExit 1))"
proof -
  let ?init = "(replicate (length TUNED_PARAMS) (0::real), Map.empty :: aux_parameters)"
  from good obtain p d where r: "read_lines float64 lines ?init = Inr (p, d)"
    using read_lines_succeeds [of lines float64] by blast
  from read_lines_keys [OF r] good have d: "dom d = USER_DEFINED_PARAMS"
    using TUNED_USER_disjoint by auto
  then have m: "Set.filter (\<lambda>k. d k = None) USER_DEFINED_PARAMS = {}"
    by (auto simp: dom_def)
  have res: "read_parameters_from_file float64 lines answers
     = (case ask answers of Inl e \<Rightarrow> Inl e
        | Inr user_in \<Rightarrow> if user_in = ''y'' then Inr (p, d) else Inl (SystemExit 1))"
    unfolding read_parameters_from_file_def r sum.case prod.case Let_def m
    by simp
  from res d show ?thesis
    unfolding ask_find by (intro exI [of _ p] exI [of _ d] conjI) (simp_all split: option.splits)
qed

text \<open>
  C8, amended. When one of the eight auxiliary keys is absent from the file, or a line
  that is neither a comment nor blank has a key outside the tunable and auxiliary key
  sets, reading the parameters ends in an error (so before any fitting). Otherwise, when
  every such line carries a value that converts to a number, reading succeeds exactly when
  the operator's first answer among y and n is y, and the answer n ends the run with exit
  status 1.
\<close>

theorem read_parameters_from_file_checks_keys:
  "((\<not> USER_DEFINED_PARAMS \<subseteq> file_keys lines \<or> \<not> file_keys lines \<subseteq> set TUNED_PARAMS \<union> USER_DEFINED_PARAMS)
     \<longrightarrow> isl (read_parameters_from_file float64 lines answers))
   \<and> (USER_DEFINED_PARAMS \<subseteq> file_keys lines \<and> file_keys lines \<subseteq> set TUNED_PARAMS \<union> USER_DEFINED_PARAMS
        \<and> (\<forall>line\<in>set (data_lines lines). line_value_ok float64 line)
     \<longrightarrow> ((\<exists>parameters d. read_parameters_from_file float64 lines answers = Inr (parameters, d)
                \<and> dom d = USER_DEFINED_PARAMS)
          \<longleftrightarrow> find (\<lambda>a. a = ''y'' \<or> a = ''n'') answers = Some ''y'')
         \<and> (find (\<lambda>a. a = ''y'' \<or> a = ''n'') answers = Some ''n''
          \<longrightarrow> read_parameters_from_file float64 lines answers = Inl (SystemExit 1)))"
proof (intro conjI impI)
  assume "\<not> USER_DEFINED_PARAMS \<subseteq> file_keys lines \<or> \<not> file_keys lines \<subseteq> set TUNED_PARAMS \<union> USER_DEFINED_PARAMS"
  then show "isl (read_parameters_from_file float64 lines answers)"
    by (rule read_parameters_from_file_bad)
next
  assume good: "USER_DEFINED_PARAMS \<subseteq> file_keys lines \<and> file_keys lines \<subseteq> set TUNED_PARAMS \<union> USER_DEFINED_PARAMS
        \<and> (\<forall>line\<in>set (data_lines lines). line_value_ok float64 line)"
  from read_parameters_from_file_good [OF this, of answers] obtain p d
    where d: "dom d = USER_DEFINED_PARAMS"
      and res: "read_parameters_from_file float64 lines answers
           = (case find (\<lambda>a. a = ''y'' \<or> a = ''n'') answers of
                None \<Rightarrow> Inl EOFError
              | Some user_in \<Rightarrow> if user_in = ''y'' then Inr (p, d) else Inl (SystemExit 1))"
    by (elim exE conjE)
  let ?f = "find (\<lambda>a. a = ''y'' \<or> a = ''n'') answers"
  have tri: "?f = None \<or> ?f = Some ''y'' \<or> ?f = Some ''n''"
    by (cases ?f) (auto dest: find_Some_iff [THEN iffD1])
  have none: "read_parameters_from_file float64 lines answers = Inl EOFError" if "?f = None"
    using that by (simp add: res)
  have yes: "read_parameters_from_file float64 lines answers = Inr (p, d)" if "?f = Some ''y''"
    using that by (simp add: res)
  have no: "read_parameters_from_file float64 lines answers = Inl (SystemExit 1)" if "?f = Some ''n''"
    using that by (simp add: res)
  show "(\<exists>parameters d. read_parameters_from_file float64 lines answers = Inr (parameters, d)
                \<and> dom d = USER_DEFINED_PARAMS)
          \<longleftrightarrow> find (\<lambda>a. a = ''y'' \<or> a = ''n'') answers = Some ''y''"
  proof
    assume "\<exists>parameters d. read_parameters_from_file float64 lines answers = Inr (parameters, d)
                \<and> dom d = USER_DEFINED_PARAMS"
    then obtain p' d' where ok: "read_parameters_from_file float64 lines answers = Inr (p', d')"
      by (elim exE conjE)
    from tri show "?f = Some ''y''"
    proof (elim disjE)
      assume "?f = None"
      from none [OF this] ok show ?thesis by simp
    next
      assume "?f = Some ''y''"
      then show ?thesis .
    next
      assume "?f = Some ''n''"
      from no [OF this] ok show ?thesis by simp
    qed
  next
    assume "?f = Some ''y''"
    from yes [OF this] d
    show "\<exists>parameters d. read_parameters_from_file float64 lines answers = Inr (parameters, d)
                \<and> dom d = USER_DEFINED_PARAMS"
      by (intro exI conjI)
  qed
  show "read_parameters_from_file float64 lines answers = Inl (SystemExit 1)"
    if "find (\<lambda>a. a = ''y'' \<or> a = ''n'') answers = Some ''n''"
    using that by (rule no)
qed

lemma example_file_keys: "file_keys example_file = insert ''k1'' USER_DEFINED_PARAMS"
  by code_simp

lemma example_file_values: "\<forall>line\<in>set (data_lines example_file). line_value_ok example_float64 line"
  by code_simp

lemma example_file_good:
  "USER_DEFINED_PARAMS \<subseteq> file_keys example_file
   \<and> file_keys example_file \<subseteq> set TUNED_PARAMS \<union> USER_DEFINED_PARAMS
   \<and> (\<forall>line\<in>set (data_lines example_file). line_value_ok example_float64 line)"
proof -
  have "''k1'' \<in> set TUNED_PARAMS"
    by (simp add: TUNED_PARAMS_def)
  then show ?thesis
    unfolding example_file_keys using example_file_values by blast
qed

text \<open>
  C8, as stated, fails: the example file has the eight keys and no unknown key, and the
  run still ends with exit status 1 when the operator answers n.
\<close>

theorem read_parameters_from_file_declined:
  "USER_DEFINED_PARAMS \<subseteq> file_keys example_file
   \<and> file_keys example_file \<subseteq> set TUNED_PARAMS \<union> USER_DEFINED_PARAMS
   \<and> read_parameters_from_file example_float64 example_file [''n''] = Inl (SystemExit 1)"
proof -
  from read_parameters_from_file_good [OF example_file_good, of "[''n'']"]
  have "read_parameters_from_file example_float64 example_file [''n''] = Inl (SystemExit 1)"
    by auto
  with example_file_good show ?thesis by blast
qed

theorem read_parameters_from_file_checks_keys_witness:
  "(\<exists>parameters d. read_parameters_from_file example_float64 example_file [''x'', ''y''] = Inr (parameters, d)
      \<and> dom d = USER_DEFINED_PARAMS)
   \<and> read_parameters_from_file example_float64 example_file [''x'', ''n''] = Inl (SystemExit 1)
   \<and> isl (read_parameters_from_file example_float64 [''k1 = 3'', ''foo = 3''] [''y''])"
proof -
  have y: "find (\<lambda>a. a = ''y'' \<or> a = ''n'') [''x'', ''y''] = Some ''y''"
    and n: "find (\<lambda>a. a = ''y'' \<or> a = ''n'') [''x'', ''n''] = Some ''n''"
    by simp_all
  have bad: "\<not> file_keys [''k1 = 3'', ''foo = 3''] \<subseteq> set TUNED_PARAMS \<union> USER_DEFINED_PARAMS"
    by code_simp
  from read_parameters_from_file_checks_keys [of example_file example_float64 "[''x'', ''y'']"] example_file_good y
  have 1: "\<exists>parameters d. read_parameters_from_file example_float64 example_file [''x'', ''y''] = Inr (parameters, d)
      \<and> dom d = USER_DEFINED_PARAMS"
    by blast
  from read_parameters_from_file_checks_keys [of example_file example_float64 "[''x'', ''n'']"] example_file_good n
  have 2: "read_parameters_from_file example_float64 example_file [''x'', ''n''] = Inl (SystemExit 1)"
    by blast
  from read_parameters_from_file_checks_keys [of "[''k1 = 3'', ''foo = 3'']" example_float64 "[''y'']"] bad
  have 3: "isl (read_parameters_from_file example_float64 [''k1 = 3'', ''foo = 3''] [''y''])"
    by blast
  from 1 2 3 show ?thesis by blast
qed

subsection \<open>The gate in float64\<close>

text \<open>
  Over the reals the gate is strictly inside its bounds; in float64 it is not.
\<close>

lemma gate_bounds_over_reals: "0 < c3 \<Longrightarrow> 0 < gate c3 r dt t \<and> gate c3 r dt t < 1"
proof -
  assume "0 < c3"
  then have "0 < c3 * exp (- r * (t - dt))"
    by simp
  then show ?thesis
    by (simp add: gate_def)
qed

lemma round_half_even_le: "y \<le> of_int n \<Longrightarrow> round_half_even y \<le> n"
proof -
  assume a: "y \<le> of_int n"
  show ?thesis
  proof (cases "y = of_int n")
    case True
    then show ?thesis by (simp add: round_half_even_def)
  next
    case False
    with a have "y < of_int n" by simp
    then have "\<lfloor>y\<rfloor> < n" by (simp add: floor_less_iff)
    then show ?thesis by (simp add: round_half_even_def Let_def)
  qed
qed

lemma round_half_even_ge: "of_int n \<le> y \<Longrightarrow> n \<le> round_half_even y"
proof -
  assume "of_int n \<le> y"
  then have "n \<le> \<lfloor>y\<rfloor>" by (simp add: le_floor_iff)
  then show ?thesis by (simp add: round_half_even_def Let_def)
qed

lemma round_magnitude_nonneg: "0 \<le> m \<Longrightarrow> 0 \<le> round_magnitude m"
proof -
  assume m: "0 \<le> m"
  have "0 \<le> round_half_even (m / 2 powr of_int (ulp_exponent m))"
    by (rule round_half_even_ge) (simp add: m)
  then show ?thesis
    by (simp add: round_magnitude_def)
qed

lemma round_magnitude_upper:
  assumes "0 \<le> m" and "m \<le> 2 powr of_int k" and "- 1022 \<le> k"
  shows "round_magnitude m \<le> 2 powr of_int k"
proof (cases "m = 0")
  case True
  then show ?thesis by (simp add: round_magnitude_def)
next
  case False
  with assms(1) have pos: "0 < m" by simp
  define u where "u = ulp_exponent m"
  have "log 2 m \<le> of_int k"
    using pos assms(2) by (simp add: log_le_iff)
  then have "\<lfloor>log 2 m\<rfloor> \<le> k"
    by (simp add: floor_le_iff)
  then have uk: "u \<le> k - 52"
    using assms(3) by (simp add: u_def ulp_exponent_def)
  then have "0 \<le> k - u" by simp
  then obtain j :: nat where j: "k - u = int j"
    using nonneg_int_cases by blast
  have p: "(2::real) powr of_int k = 2 ^ j * 2 powr of_int u"
  proof -
    have "k = int j + u"
      using j by simp
    then have "(of_int k :: real) = real j + of_int u"
      by simp
    then show ?thesis
      by (simp add: powr_add powr_realpow)
  qed
  have u0: "(0::real) < 2 powr of_int u"
    by simp
  have "m / 2 powr of_int u \<le> 2 ^ j"
    using assms(2) u0 unfolding p by (simp add: pos_divide_le_eq)
  then have "m / 2 powr of_int u \<le> of_int (2 ^ j)"
    by simp
  then have "round_half_even (m / 2 powr of_int u) \<le> 2 ^ j"
    by (rule round_half_even_le)
  then have "(of_int (round_half_even (m / 2 powr of_int u)) :: real) \<le> of_int (2 ^ j)"
    by (simp only: of_int_le_iff)
  then have "(of_int (round_half_even (m / 2 powr of_int u)) :: real) \<le> 2 ^ j"
    by simp
  then have "of_int (round_half_even (m / 2 powr of_int u)) * 2 powr of_int u \<le> (2 ^ j * 2 powr of_int u :: real)"
    using u0 by (simp add: mult_right_mono)
  then show ?thesis
    using False unfolding p by (simp add: round_magnitude_def u_def)
qed

lemma round_magnitude_lower:
  assumes "2 powr of_int k \<le> m" and "- 1022 \<le> k"
  shows "2 powr of_int k \<le> round_magnitude m"
proof -
  have pos: "0 < m"
    using assms(1) powr_gt_zero [of 2 "of_int k"] by linarith
  define e where "e = \<lfloor>log 2 m\<rfloor>"
  have "of_int k \<le> log 2 m"
    using pos assms(1) by (simp add: le_log_iff)
  then have ke: "k \<le> e"
    by (simp add: e_def le_floor_iff)
  then have u: "ulp_exponent m = e - 52"
    using assms(2) by (simp add: ulp_exponent_def e_def)
  have "of_int e \<le> log 2 m"
    by (simp add: e_def)
  then have em: "2 powr of_int e \<le> m"
    using pos by (simp add: le_log_iff)
  have p: "(2::real) powr of_int e = 2 ^ 52 * 2 powr of_int (e - 52)"
  proof -
    have "(2::real) powr (52 + of_int (e - 52)) = 2 powr 52 * 2 powr of_int (e - 52)"
      by (rule powr_add)
    then show ?thesis
      by simp
  qed
  have u0: "(0::real) < 2 powr of_int (e - 52)"
    by simp
  have "2 ^ 52 \<le> m / 2 powr of_int (e - 52)"
    using em u0 unfolding p by (simp add: pos_le_divide_eq)
  then have "of_int (2 ^ 52) \<le> m / 2 powr of_int (e - 52)"
    by simp
  then have "2 ^ 52 \<le> round_half_even (m / 2 powr of_int (e - 52))"
    by (rule round_half_even_ge)
  then have "(of_int (2 ^ 52) :: real) \<le> of_int (round_half_even (m / 2 powr of_int (e - 52)))"
    by (simp only: of_int_le_iff)
  then have "(2 ^ 52 :: real) \<le> of_int (round_half_even (m / 2 powr of_int (e - 52)))"
    by simp
  then have "(2 ^ 52 * 2 powr of_int (e - 52) :: real)
      \<le> of_int (round_half_even (m / 2 powr of_int (e - 52))) * 2 powr of_int (e - 52)"
    using u0 by (simp add: mult_right_mono)
  then have "2 powr of_int e \<le> round_magnitude m"
    using pos unfolding p by (simp add: round_magnitude_def u)
  moreover have "(2::real) powr of_int k \<le> 2 powr of_int e"
    using ke by (simp add: powr_mono)
  ultimately show ?thesis by linarith
qed

lemma powr_neg_nat: "(2::real) powr (- real n) = 1 / 2 ^ n"
proof -
  have "(2::real) powr (- real n) = 1 / 2 powr real n"
    by (rule powr_minus_divide)
  also have "(2::real) powr real n = 2 ^ n"
    by (rule powr_realpow) simp
  finally show ?thesis .
qed

lemma two_powr_minus_53: "(2::real) powr (- 53) = 1 / 2 ^ 53"
  using powr_neg_nat [of 53] by simp

lemma two_powr_minus_52: "(2::real) powr (- 52) = 1 / 2 ^ 52"
  using powr_neg_nat [of 52] by simp


lemma round_half_even_floor: "y - of_int \<lfloor>y\<rfloor> < 1 / 2 \<Longrightarrow> round_half_even y = \<lfloor>y\<rfloor>"
  by (simp add: round_half_even_def Let_def)

lemma round_magnitude_one_plus:
  assumes "0 \<le> z" and "z < 2 powr (- 53)"
  shows "round_magnitude (1 + z) = 1"
proof -
  have z53: "z < 1 / 2 ^ 53"
    using assms(2) unfolding two_powr_minus_53 .
  have z: "z * 2 ^ 52 < 1 / 2"
    using z53 by simp
  have z1: "z < 1"
    using z53 by simp
  have l: "\<lfloor>log 2 (1 + z)\<rfloor> = 0"
  proof -
    have "0 \<le> log 2 (1 + z)"
      using assms(1) by simp
    moreover have "log 2 (1 + z) < 1"
      using assms(1) z1 by (simp add: log_less_iff)
    ultimately show ?thesis
      by (simp add: floor_eq_iff)
  qed
  have u: "ulp_exponent (1 + z) = - 52"
    by (simp add: ulp_exponent_def l)
  have q: "(1 + z) / 2 powr (- 52) = 2 ^ 52 + z * 2 ^ 52"
    unfolding two_powr_minus_52 by (simp add: algebra_simps)
  have f: "\<lfloor>(2 ^ 52 + z * 2 ^ 52 :: real)\<rfloor> = 2 ^ 52"
    using z assms(1) by (simp add: floor_eq_iff)
  have r: "round_half_even (2 ^ 52 + z * 2 ^ 52) = 2 ^ 52"
  proof -
    have "(2 ^ 52 + z * 2 ^ 52) - of_int \<lfloor>(2 ^ 52 + z * 2 ^ 52 :: real)\<rfloor> < 1 / 2"
      unfolding f using z by simp
    from round_half_even_floor [OF this] show ?thesis
      unfolding f .
  qed
  have nz: "1 + z \<noteq> 0"
    using assms(1) by simp
  have "round_magnitude (1 + z) = of_int (round_half_even ((1 + z) / 2 powr (- 52))) * 2 powr (- 52)"
    using nz by (simp add: round_magnitude_def u)
  also have "\<dots> = of_int (2 ^ 52) * 2 powr (- 52)"
    unfolding q r ..
  also have "\<dots> = 1"
    unfolding two_powr_minus_52 by simp
  finally show ?thesis .
qed

lemma round_magnitude_power_of_two:
  "- 1022 \<le> k \<Longrightarrow> round_magnitude (2 powr of_int k) = 2 powr of_int k"
  using round_magnitude_upper [of "2 powr of_int k" k] round_magnitude_lower [of k "2 powr of_int k"]
  by simp

lemma round_magnitude_1 [simp]: "round_magnitude 1 = 1"
  using round_magnitude_power_of_two [of 0] by simp

lemma round_magnitude_128 [simp]: "round_magnitude 128 = 128"
  using round_magnitude_power_of_two [of 7] by simp

lemma round_magnitude_le_1: "0 \<le> m \<Longrightarrow> m \<le> 1 \<Longrightarrow> round_magnitude m \<le> 1"
  using round_magnitude_upper [of m 0] by simp

lemma round_magnitude_ge_1: "1 \<le> m \<Longrightarrow> 1 \<le> round_magnitude m"
  using round_magnitude_lower [of 0 m] by simp

lemma rounded_nonneg:
  "0 \<le> m \<Longrightarrow> rounded s m = Infinite s \<or> (\<exists>r. rounded s m = Finite s r \<and> 0 \<le> r)"
  using round_magnitude_nonneg [of m] by (simp add: rounded_def Let_def)

lemma rounded_ge_1:
  "1 \<le> m \<Longrightarrow> rounded s m = Infinite s \<or> (\<exists>r. rounded s m = Finite s r \<and> 1 \<le> r)"
  using round_magnitude_ge_1 [of m] by (simp add: rounded_def Let_def)

lemma rounded_le_1:
  assumes "0 \<le> m" and "m \<le> 1"
  shows "\<exists>r. rounded s m = Finite s r \<and> 0 \<le> r \<and> r \<le> 1"
proof -
  have "round_magnitude m \<le> 1"
    using assms by (rule round_magnitude_le_1)
  moreover have "(1::real) < 2 ^ 1024"
    by simp
  ultimately have "\<not> 2 ^ 1024 \<le> round_magnitude m"
    by linarith
  then show ?thesis
    using round_magnitude_nonneg [OF assms(1)] \<open>round_magnitude m \<le> 1\<close>
    by (simp add: rounded_def Let_def)
qed

lemma rounded_not_NaN [simp]: "rounded s m \<noteq> NotANumber"
  by (simp add: rounded_def Let_def)

lemma fl_exp_range:
  "x \<noteq> NotANumber \<Longrightarrow> fl_exp x = Infinite False \<or> (\<exists>y. fl_exp x = Finite False y \<and> 0 \<le> y)"
proof (cases x)
  case (Finite s m)
  then show ?thesis
    using rounded_nonneg [of "exp (signed_value s m)" False] by simp
qed auto

lemma gate_float64_range:
  assumes "0 < c" and "x \<noteq> NotANumber"
  shows "\<exists>g. fl_div (Finite False 1) (fl_add (Finite False 1) (fl_mul (Finite False c) (fl_exp x)))
              = Finite False g \<and> 0 \<le> g \<and> g \<le> 1"
proof -
  have P: "fl_mul (Finite False c) (fl_exp x) = Infinite False
           \<or> (\<exists>p. fl_mul (Finite False c) (fl_exp x) = Finite False p \<and> 0 \<le> p)"
    using fl_exp_range [OF assms(2)]
  proof (elim disjE exE conjE)
    assume "fl_exp x = Infinite False"
    then show ?thesis using assms(1) by simp
  next
    fix y assume "fl_exp x = Finite False y" "0 \<le> y"
    then show ?thesis
      using rounded_nonneg [of "c * y" False] assms(1) by simp
  qed
  have S: "fl_add (Finite False 1) (fl_mul (Finite False c) (fl_exp x)) = Infinite False
           \<or> (\<exists>q. fl_add (Finite False 1) (fl_mul (Finite False c) (fl_exp x)) = Finite False q \<and> 1 \<le> q)"
    using P
  proof (elim disjE exE conjE)
    assume "fl_mul (Finite False c) (fl_exp x) = Infinite False"
    then show ?thesis by simp
  next
    fix p assume "fl_mul (Finite False c) (fl_exp x) = Finite False p" "0 \<le> p"
    then show ?thesis
      using rounded_ge_1 [of "1 + p" False] by (simp add: signed_value_def Let_def)
  qed
  show ?thesis
    using S
  proof (elim disjE exE conjE)
    assume "fl_add (Finite False 1) (fl_mul (Finite False c) (fl_exp x)) = Infinite False"
    then show ?thesis by simp
  next
    fix q assume q: "fl_add (Finite False 1) (fl_mul (Finite False c) (fl_exp x)) = Finite False q" "1 \<le> q"
    then have "0 \<le> 1 / q" "1 / q \<le> 1"
      by simp_all
    from rounded_le_1 [OF this, of False] q show ?thesis
      by simp
  qed
qed

text \<open>
  C10, amended. In float64, with c3 a positive finite number and an exponent
  \<open>(- time + dt) * r\<close> that is not NaN, the gate that \<open>s_curve\<close> computes is a number
  from 0 to 1, both ends included, and the model value is the relaxation term weighted by
  it, plus the drift term.
\<close>

theorem s_curve_float64_gate_in_closed_unit_interval:
  assumes "0 < c"
    and "aux ''dt'' = Some dt" and "aux ''c3'' = Some (Finite False c)"
    and "aux ''cvert'' = Some cvert" and "aux ''r'' = Some r"
    and "length parameters = 4"
    and "fl_mul (fl_add (fl_neg time) dt) r \<noteq> NotANumber"
  shows "\<exists>g m d. s_curve_float64 time parameters aux = Some (Finite False g) \<and> 0 \<le> g \<and> g \<le> 1
           \<and> mod_maxwell_float64 time parameters aux = Some m
           \<and> steady_float64 time parameters aux = Some d
           \<and> saturation_function_float64 time parameters aux = Some (fl_add (fl_mul m (Finite False g)) d)"
proof -
  obtain g where g: "fl_div (Finite False 1) (fl_add (Finite False 1)
        (fl_mul (Finite False c) (fl_exp (fl_mul (fl_add (fl_neg time) dt) r)))) = Finite False g"
    and b: "0 \<le> g" "g \<le> 1"
    using gate_float64_range [OF assms(1,7)] by blast
  have s: "s_curve_float64 time parameters aux = Some (Finite False g)"
    using assms(2-5) g by (simp add: s_curve_float64_def)
  have its: "item parameters 0 \<noteq> None" "item parameters 1 \<noteq> None"
    "item parameters 2 \<noteq> None" "item parameters 3 \<noteq> None"
    using assms(6) by (simp_all add: item_def)
  obtain m where m: "mod_maxwell_float64 time parameters aux = Some m"
    using assms(2-5) its by (auto simp: mod_maxwell_float64_def Let_def)
  obtain d where d: "steady_float64 time parameters aux = Some d"
    using assms(2-5) its by (auto simp: steady_float64_def)
  have "saturation_function_float64 time parameters aux = Some (fl_add (fl_mul m (Finite False g)) d)"
    by (simp add: saturation_function_float64_def m d s)
  with s b m d show ?thesis by blast
qed

lemma exp_minus_128: "exp (- 128 :: real) \<le> 2 powr (- 128)"
proof -
  have "(1::real) + 1 \<le> exp 1"
    by (rule exp_ge_add_one_self)
  then have "(2::real) ^ 128 \<le> exp 1 ^ 128"
    by (intro power_mono) simp_all
  also have "exp (1::real) ^ 128 = exp 128"
    using exp_of_nat_mult [of 128 "1::real"] by simp
  finally have a: "(2::real) ^ 128 \<le> exp 128" .
  have p: "(2::real) powr (- 128) = 1 / 2 ^ 128"
    using powr_neg_nat [of 128] by simp
  have e: "exp (- 128 :: real) = 1 / exp 128"
    by (simp add: exp_minus inverse_eq_divide)
  have "1 / exp (128::real) \<le> 1 / 2 ^ 128"
    using a by (intro divide_left_mono) simp_all
  then show ?thesis
    unfolding p e .
qed

lemma exp_1024: "(2::real) powr of_int 1024 \<le> exp 1024"
proof -
  have "(1::real) + 1 \<le> exp 1"
    by (rule exp_ge_add_one_self)
  then have "(2::real) ^ 1024 \<le> exp 1 ^ 1024"
    by (intro power_mono) simp_all
  also have "exp (1::real) ^ 1024 = exp 1024"
    using exp_of_nat_mult [of 1024 "1::real"] by simp
  finally have "(2::real) ^ 1024 \<le> exp 1024" .
  moreover have "(2::real) powr of_int 1024 = 2 ^ 1024"
    using powr_realpow [of 2 1024] by simp
  ultimately show ?thesis
    by simp
qed

lemma s_curve_float64_zero:
  "s_curve_float64 (Finite True 1024) []
     [''dt'' \<mapsto> Finite False 0, ''c3'' \<mapsto> Finite False 1, ''cvert'' \<mapsto> Finite False 0, ''r'' \<mapsto> Finite False 1]
   = Some (Finite False 0)"
proof -
  have "round_magnitude 1024 = 1024"
    using round_magnitude_power_of_two [of 10] by simp
  then have r: "rounded s 1024 = Finite s 1024" for s
    by (simp add: rounded_def)
  have x: "fl_mul (fl_add (fl_neg (Finite True 1024)) (Finite False 0)) (Finite False 1) = Finite False 1024"
    by (simp add: signed_value_def r)
  have "2 powr of_int 1024 \<le> round_magnitude (exp 1024)"
    using exp_1024 by (rule round_magnitude_lower) simp
  moreover have "(2::real) powr of_int 1024 = 2 ^ 1024"
    using powr_realpow [of 2 1024] by simp
  ultimately have "2 ^ 1024 \<le> round_magnitude (exp 1024)"
    by simp
  then have e: "fl_exp (Finite False 1024) = Infinite False"
    by (simp add: signed_value_def rounded_def)
  have "s_curve_float64 (Finite True 1024) []
     [''dt'' \<mapsto> Finite False 0, ''c3'' \<mapsto> Finite False 1, ''cvert'' \<mapsto> Finite False 0, ''r'' \<mapsto> Finite False 1]
     = Some (fl_div (Finite False 1) (fl_add (Finite False 1) (fl_mul (Finite False 1)
         (fl_exp (fl_mul (fl_add (fl_neg (Finite True 1024)) (Finite False 0)) (Finite False 1))))))"
    by (simp add: s_curve_float64_def
        del: fl_neg.simps fl_add.simps fl_mul.simps fl_div.simps fl_exp.simps)
  then show ?thesis
    unfolding x e by simp
qed

text \<open>
  C10, as stated, fails: with c3 = 1, r = 1 and dt = 0 the gate is exactly 1 at time 128
  (the exponential is below half a unit in the last place of 1) and exactly 0 at time
  -1024 (the exponential overflows).
\<close>

theorem s_curve_float64_gate_reaches_bounds:
  "s_curve_float64 (Finite False 128) []
     [''dt'' \<mapsto> Finite False 0, ''c3'' \<mapsto> Finite False 1, ''cvert'' \<mapsto> Finite False 0, ''r'' \<mapsto> Finite False 1]
   = Some (Finite False 1)
   \<and> s_curve_float64 (Finite True 1024) []
     [''dt'' \<mapsto> Finite False 0, ''c3'' \<mapsto> Finite False 1, ''cvert'' \<mapsto> Finite False 0, ''r'' \<mapsto> Finite False 1]
   = Some (Finite False 0)"
proof -
  have big: "\<not> (2::real) ^ 1024 \<le> 128" "\<not> (2::real) ^ 1024 \<le> 1"
    by simp_all
  have r1: "rounded s 128 = Finite s 128" "rounded s 1 = Finite s 1" for s
    using big by (simp_all add: rounded_def)
  have x: "fl_mul (fl_add (fl_neg (Finite False 128)) (Finite False 0)) (Finite False 1) = Finite True 128"
    by (simp add: signed_value_def r1)
  define y where "y = round_magnitude (exp (- 128))"
  have y0: "0 \<le> y"
    unfolding y_def by (rule round_magnitude_nonneg) simp
  have y1: "y \<le> 2 powr (- 128)"
    unfolding y_def using round_magnitude_upper [of "exp (- 128)" "- 128"] exp_minus_128 by simp
  have small: "(2::real) powr (- 128) < 2 powr (- 53)"
    by (rule powr_less_mono) simp_all
  have "(2::real) powr (- 53) < 2 ^ 1024"
    using powr_neg_nat [of 53] by simp
  with y1 small have ybig: "\<not> 2 ^ 1024 \<le> y"
    by linarith
  have e: "fl_exp (Finite True 128) = Finite False y"
    using ybig by (simp add: signed_value_def rounded_def y_def)
  define z where "z = round_magnitude y"
  have z0: "0 \<le> z"
    unfolding z_def using y0 by (rule round_magnitude_nonneg)
  have z1: "z \<le> 2 powr (- 128)"
    unfolding z_def using round_magnitude_upper [of y "- 128"] y0 y1 by simp
  with small \<open>(2::real) powr (- 53) < 2 ^ 1024\<close> have zbig: "\<not> 2 ^ 1024 \<le> z"
    by linarith
  have p: "fl_mul (Finite False 1) (Finite False y) = Finite False z"
    using zbig by (simp add: rounded_def z_def)
  have "z < 2 powr (- 53)"
    using z1 small by linarith
  with z0 have "round_magnitude (1 + z) = 1"
    by (rule round_magnitude_one_plus)
  then have a: "fl_add (Finite False 1) (Finite False z) = Finite False 1"
    using z0 big by (simp add: signed_value_def Let_def rounded_def)
  have d: "fl_div (Finite False 1) (Finite False 1) = Finite False 1"
    by (simp add: r1)
  have "s_curve_float64 (Finite False 128) []
     [''dt'' \<mapsto> Finite False 0, ''c3'' \<mapsto> Finite False 1, ''cvert'' \<mapsto> Finite False 0, ''r'' \<mapsto> Finite False 1]
     = Some (fl_div (Finite False 1) (fl_add (Finite False 1) (fl_mul (Finite False 1)
         (fl_exp (fl_mul (fl_add (fl_neg (Finite False 128)) (Finite False 0)) (Finite False 1))))))"
    by (simp add: s_curve_float64_def
        del: fl_neg.simps fl_add.simps fl_mul.simps fl_div.simps fl_exp.simps)
  then have "s_curve_float64 (Finite False 128) []
     [''dt'' \<mapsto> Finite False 0, ''c3'' \<mapsto> Finite False 1, ''cvert'' \<mapsto> Finite False 0, ''r'' \<mapsto> Finite False 1]
     = Some (Finite False 1)"
    unfolding x e p a d .
  with s_curve_float64_zero show ?thesis
    by (rule conjI [rotated])
qed

theorem s_curve_float64_gate_in_closed_unit_interval_witness:
  "\<exists>g m d. s_curve_float64 (Finite False 128) [Finite False 1, Finite False 1, Finite False 1, Finite False 1]
       [''dt'' \<mapsto> Finite False 0, ''c3'' \<mapsto> Finite False 1, ''cvert'' \<mapsto> Finite False 0, ''r'' \<mapsto> Finite False 1]
       = Some (Finite False g) \<and> 0 \<le> g \<and> g \<le> 1
     \<and> mod_maxwell_float64 (Finite False 128) [Finite False 1, Finite False 1, Finite False 1, Finite False 1]
       [''dt'' \<mapsto> Finite False 0, ''c3'' \<mapsto> Finite False 1, ''cvert'' \<mapsto> Finite False 0, ''r'' \<mapsto> Finite False 1]
       = Some m
     \<and> steady_float64 (Finite False 128) [Finite False 1, Finite False 1, Finite False 1, Finite False 1]
       [''dt'' \<mapsto> Finite False 0, ''c3'' \<mapsto> Finite False 1, ''cvert'' \<mapsto> Finite False 0, ''r'' \<mapsto> Finite False 1]
       = Some d
     \<and> saturation_function_float64 (Finite False 128) [Finite False 1, Finite False 1, Finite False 1, Finite False 1]
       [''dt'' \<mapsto> Finite False 0, ''c3'' \<mapsto> Finite False 1, ''cvert'' \<mapsto> Finite False 0, ''r'' \<mapsto> Finite False 1]
       = Some (fl_add (fl_mul m (Finite False g)) d)"
proof -
  have n: "fl_mul (fl_add (fl_neg (Finite False 128)) (Finite False 0)) (Finite False 1) \<noteq> NotANumber"
    by (simp add: signed_value_def Let_def rounded_def)
  show ?thesis
    by (rule s_curve_float64_gate_in_closed_unit_interval [of 1 _ "Finite False 0" "Finite False 0" "Finite False 1", OF _ _ _ _ _ _ n]) simp_all
qed

end
